theory Spec2Isabelle
  imports Complex_Main "HOL-Library.Word"
begin

section \<open>Decimal text of integers\<close>

text \<open>
  The service exchanges every amount with Redis as decimal text
  (\<^verbatim>\<open>amount.toString()\<close>, \<^verbatim>\<open>Long.fromString(value)\<close>), and the Lua scripts
  test the sign of a number by looking at its first character. The model keeps the
  text: \<open>ll2string\<close> is the decimal text Redis writes for a signed 64-bit integer,
  \<open>string2ll\<close> the strict parser Redis applies to a stored string or an argument
  (no leading zeros, no plus sign, no spaces, no \<^verbatim>\<open>-0\<close>, within 64 bits).
\<close>

definition digit_char :: "nat \<Rightarrow> char" where
  "digit_char d = ''0123456789'' ! d"

definition digit_val :: "char \<Rightarrow> nat" where
  "digit_val c = of_char c - 48"

fun dec :: "nat \<Rightarrow> string" where
  "dec n = (if n < 10 then [digit_char n] else dec (n div 10) @ [digit_char (n mod 10)])"

declare dec.simps [simp del]

definition dec_val :: "string \<Rightarrow> nat" where
  "dec_val s = foldl (\<lambda>a c. 10 * a + digit_val c) 0 s"

definition ll2string :: "int \<Rightarrow> string" where
  "ll2string i = (if i < 0 then CHR ''-'' # dec (nat (- i)) else dec (nat i))"

definition LLONG_MAX :: int where
  "LLONG_MAX = 9223372036854775807"

definition LLONG_MIN :: int where
  "LLONG_MIN = - 9223372036854775808"

definition string2ll :: "string \<Rightarrow> int option" where
  "string2ll s =
     (let v = (if take 1 s = ''-'' then - int (dec_val (drop 1 s)) else int (dec_val s))
      in if ll2string v = s \<and> LLONG_MIN \<le> v \<and> v \<le> LLONG_MAX then Some v else None)"

section \<open>The Long values of long.js\<close>

text \<open>
  A \<^verbatim>\<open>Long\<close> is 64 bits and a flag saying whether they are read unsigned. The
  functions below are the ones \<^verbatim>\<open>Redis.ts\<close> calls.
\<close>

datatype long = Long (bits: "64 word") (unsigned: bool)

definition MAX_VALUE :: long where
  "MAX_VALUE = Long 0x7FFFFFFFFFFFFFFF False"

definition UZERO :: long where
  "UZERO = Long 0 True"

definition isNegative :: "long \<Rightarrow> bool" where
  "isNegative l = (\<not> unsigned l \<and> sint (bits l) < 0)"

definition eq :: "long \<Rightarrow> long \<Rightarrow> bool" where
  "eq l other =
     (if unsigned l \<noteq> unsigned other \<and> sint (bits l) < 0 \<and> sint (bits other) < 0 then False
      else bits l = bits other)"

definition sub :: "long \<Rightarrow> long \<Rightarrow> long" where
  "sub l other = Long (bits l - bits other) (unsigned l)"

definition compare :: "long \<Rightarrow> long \<Rightarrow> int" where
  "compare l other =
     (if eq l other then 0
      else if isNegative l \<and> \<not> isNegative other then - 1
      else if \<not> isNegative l \<and> isNegative other then 1
      else if \<not> unsigned l then (if isNegative (sub l other) then - 1 else 1)
      else if bits l < bits other then - 1 else 1)"

definition long_value :: "long \<Rightarrow> int" where
  \<comment> \<open>the number a Long stands for\<close>
  "long_value l = (if unsigned l then uint (bits l) else sint (bits l))"

definition toString :: "long \<Rightarrow> string" where
  "toString l = ll2string (long_value l)"


definition fromString :: "string \<Rightarrow> long option" where
  \<comment> \<open>\<^verbatim>\<open>Long.fromString(str)\<close>, signed, radix 10, on the text of a signed 64-bit integer,
      which is all a Redis reply of these scripts can be; on other text long.js throws or
      wraps around, and the model answers \<open>None\<close>.\<close>
  "fromString s = (case string2ll s of Some v \<Rightarrow> Some (Long (word_of_int v) False) | None \<Rightarrow> None)"

section \<open>The Redis store\<close>

text \<open>
  A key holds a string or a hash (a map from field names to strings) and may carry an
  expiry, an absolute time in milliseconds. Every command takes the current time
  \<open>now\<close>; a key whose expiry has been reached is absent for every command.
  A command replies with a value or an error, and returns the store after it.
  The commands are those of a Redis server, as its documentation describes them; the
  in-memory replacement that \<^verbatim>\<open>redisUri === 'mock'\<close> selects is not modelled.
\<close>

datatype rvalue = Str string | Hash "string \<rightharpoonup> string"

record entry =
  val :: rvalue
  expires :: "nat option"

type_synonym store = "string \<rightharpoonup> entry"

datatype redis_error =
    WRONGTYPE \<comment> \<open>operation against a key holding the wrong kind of value\<close>
  | NotAnInteger \<comment> \<open>value is not an integer or out of range\<close>
  | WouldOverflow \<comment> \<open>increment or decrement would overflow\<close>
  | InvalidExpireTime \<comment> \<open>invalid expire time in 'expire' command\<close>
  | ErrorReply string \<comment> \<open>\<^verbatim>\<open>redis.error_reply(msg)\<close> returned by a script\<close>
  | ScriptError \<comment> \<open>a Lua run-time error inside a script\<close>

type_synonym 'a cmd = "store \<Rightarrow> (redis_error + 'a) \<times> store"

definition lookupKey :: "nat \<Rightarrow> store \<Rightarrow> string \<Rightarrow> entry option" where
  "lookupKey now st k =
     (case st k of
        None \<Rightarrow> None
      | Some e \<Rightarrow> (case expires e of
                    None \<Rightarrow> Some e
                  | Some t \<Rightarrow> if now < t then Some e else None))"

definition reply :: "'a \<Rightarrow> 'a cmd" where
  "reply a st = (Inr a, st)"

definition fail :: "redis_error \<Rightarrow> 'a cmd" where
  "fail e st = (Inl e, st)"

definition bind :: "'a cmd \<Rightarrow> ('a \<Rightarrow> 'b cmd) \<Rightarrow> 'b cmd" where
  \<comment> \<open>one \<^verbatim>\<open>redis.call\<close> after another: an error ends the script, and what the
      earlier calls wrote stays written\<close>
  "bind m f st = (case m st of (Inl e, st') \<Rightarrow> (Inl e, st') | (Inr a, st') \<Rightarrow> f a st')"

definition EXISTS :: "nat \<Rightarrow> string \<Rightarrow> bool cmd" where
  "EXISTS now k st = (Inr (lookupKey now st k \<noteq> None), st)"

definition GET :: "nat \<Rightarrow> string \<Rightarrow> string option cmd" where
  "GET now k st =
     (case lookupKey now st k of
        None \<Rightarrow> (Inr None, st)
      | Some e \<Rightarrow> (case val e of
                    Str s \<Rightarrow> (Inr (Some s), st)
                  | Hash h \<Rightarrow> (Inl WRONGTYPE, st)))"

definition SET :: "string \<Rightarrow> string \<Rightarrow> unit cmd" where
  "SET k v st = (Inr (), st(k \<mapsto> \<lparr>val = Str v, expires = None\<rparr>))"

definition SET_EX :: "nat \<Rightarrow> string \<Rightarrow> string \<Rightarrow> nat \<Rightarrow> unit cmd" where
  \<comment> \<open>\<^verbatim>\<open>SET k v EX seconds\<close>, for a positive number of seconds\<close>
  "SET_EX now k v seconds st =
     (Inr (), st(k \<mapsto> \<lparr>val = Str v, expires = Some (now + 1000 * seconds)\<rparr>))"

definition DEL :: "string \<Rightarrow> unit cmd" where
  "DEL k st = (Inr (), st(k := None))"

definition HGET :: "nat \<Rightarrow> string \<Rightarrow> string \<Rightarrow> string option cmd" where
  "HGET now k f st =
     (case lookupKey now st k of
        None \<Rightarrow> (Inr None, st)
      | Some e \<Rightarrow> (case val e of
                    Hash h \<Rightarrow> (Inr (h f), st)
                  | Str s \<Rightarrow> (Inl WRONGTYPE, st)))"

definition HSET :: "nat \<Rightarrow> string \<Rightarrow> string \<Rightarrow> string \<Rightarrow> unit cmd" where
  "HSET now k f v st =
     (case lookupKey now st k of
        None \<Rightarrow> (Inr (), st(k \<mapsto> \<lparr>val = Hash [f \<mapsto> v], expires = None\<rparr>))
      | Some e \<Rightarrow> (case val e of
                    Hash h \<Rightarrow> (Inr (), st(k \<mapsto> e\<lparr>val := Hash (h(f \<mapsto> v))\<rparr>))
                  | Str s \<Rightarrow> (Inl WRONGTYPE, st)))"

definition EXPIRE :: "nat \<Rightarrow> string \<Rightarrow> string \<Rightarrow> unit cmd" where
  \<comment> \<open>The timeout is text, read as a signed 64-bit integer. The server refuses a
      timeout that overflows 64 bits when it is scaled to milliseconds (C's division
      truncates: \<^verbatim>\<open>LLONG_MIN / 1000\<close> is \<open>- (LLONG_MAX div 1000)\<close>) or added to the
      current time. All this comes before the key is looked up. An expiry that is not
      after the current time deletes the key. A server older than the overflow test lets
      the product wrap around instead of refusing it; the theorems below are about
      timeouts that do not overflow.\<close>
  "EXPIRE now k seconds st =
     (case string2ll seconds of
        None \<Rightarrow> (Inl NotAnInteger, st)
      | Some w \<Rightarrow>
          if w > LLONG_MAX div 1000 \<or> w < - (LLONG_MAX div 1000) then (Inl InvalidExpireTime, st)
          else if 1000 * w > LLONG_MAX - int now then (Inl InvalidExpireTime, st)
          else
            (case lookupKey now st k of
               None \<Rightarrow> (Inr (), st)
             | Some e \<Rightarrow>
                 if int now + 1000 * w \<le> int now then (Inr (), st(k := None))
                 else (Inr (), st(k \<mapsto> e\<lparr>expires := Some (nat (int now + 1000 * w))\<rparr>))))"

definition incrDecr :: "nat \<Rightarrow> string \<Rightarrow> int \<Rightarrow> unit cmd" where
  \<comment> \<open>the common part of INCRBY and DECRBY: the key's type, then its text, then the
      overflow test; an absent key counts as 0; the expiry of the key is kept\<close>
  "incrDecr now k incr st =
     (case lookupKey now st k of
        None \<Rightarrow> (Inr (), st(k \<mapsto> \<lparr>val = Str (ll2string incr), expires = None\<rparr>))
      | Some e \<Rightarrow>
          (case val e of
             Hash h \<Rightarrow> (Inl WRONGTYPE, st)
           | Str s \<Rightarrow>
               (case string2ll s of
                  None \<Rightarrow> (Inl NotAnInteger, st)
                | Some oldvalue \<Rightarrow>
                    if (incr < 0 \<and> oldvalue < 0 \<and> incr < LLONG_MIN - oldvalue)
                       \<or> (incr > 0 \<and> oldvalue > 0 \<and> incr > LLONG_MAX - oldvalue)
                    then (Inl WouldOverflow, st)
                    else (Inr (), st(k \<mapsto> e\<lparr>val := Str (ll2string (oldvalue + incr))\<rparr>)))))"

definition INCRBY :: "nat \<Rightarrow> string \<Rightarrow> string \<Rightarrow> unit cmd" where
  "INCRBY now k amount st =
     (case string2ll amount of
        None \<Rightarrow> (Inl NotAnInteger, st)
      | Some incr \<Rightarrow> incrDecr now k incr st)"

definition DECRBY :: "nat \<Rightarrow> string \<Rightarrow> string \<Rightarrow> unit cmd" where
  "DECRBY now k amount st =
     (case string2ll amount of
        None \<Rightarrow> (Inl NotAnInteger, st)
      | Some decr \<Rightarrow> if decr = LLONG_MIN then (Inl WouldOverflow, st)
                     else incrDecr now k (- decr) st)"

section \<open>The scripts defined in \<open>start\<close>\<close>

text \<open>
  Each script runs as one unit on the store. \<^verbatim>\<open>redis.call\<close> raises on an error
  reply, which ends the script; nothing is rolled back. A nil reply is \<open>None\<close>
  (Lua's \<^verbatim>\<open>false\<close>), and \<^verbatim>\<open>string.sub(s, 1, 1) == '-'\<close> is \<open>take 1 s = ''-''\<close>.
\<close>

definition getReceiptValue_lua :: "nat \<Rightarrow> string \<Rightarrow> string \<Rightarrow> string \<Rightarrow> string \<Rightarrow> string cmd" where
  "getReceiptValue_lua now key tempKey streamId amount =
     bind (HGET now key streamId) (\<lambda>prevAmount.
       case prevAmount of
         Some prev \<Rightarrow>
           bind (SET_EX now tempKey amount 1) (\<lambda>_.
           bind (DECRBY now tempKey prev) (\<lambda>_.
           bind (GET now tempKey) (\<lambda>diff.
             case diff of
               None \<Rightarrow> fail ScriptError
             | Some d \<Rightarrow>
                 if take 1 d = ''-'' then reply ''0''
                 else bind (HSET now key streamId amount) (\<lambda>_. reply d))))
       | None \<Rightarrow> bind (HSET now key streamId amount) (\<lambda>_. reply amount))"

definition creditBalance_lua :: "nat \<Rightarrow> string \<Rightarrow> string \<Rightarrow> string option cmd" where
  "creditBalance_lua now key amount =
     bind (INCRBY now key amount) (\<lambda>_. GET now key)"

definition spendBalance_lua :: "nat \<Rightarrow> string \<Rightarrow> string \<Rightarrow> string cmd" where
  "spendBalance_lua now key amount =
     bind (GET now key) (\<lambda>existing.
       case existing of
         Some _ \<Rightarrow>
           bind (DECRBY now key amount) (\<lambda>_.
           bind (GET now key) (\<lambda>balance.
             case balance of
               None \<Rightarrow> fail ScriptError
             | Some b \<Rightarrow>
                 if take 1 b = ''-''
                 then bind (INCRBY now key amount) (\<lambda>_. fail (ErrorReply ''insufficient balance''))
                 else reply b))
       | None \<Rightarrow> fail (ErrorReply ''balance does not exist''))"

section \<open>The Redis service\<close>

text \<open>
  A method of the class takes the store and returns its result, or the error it throws,
  with the store after it. \<open>ReplyError\<close> is the rejection of a Redis command passed on
  unchanged. The connection is taken to be up, and the awaits of one method run at one
  time \<open>now\<close>. Of the configuration only \<open>receiptTTLSeconds\<close> is used here.
\<close>

datatype error = Error string | TypeError string | ReplyError redis_error

type_synonym 'a result = "(error + 'a) \<times> store"

text \<open>
  A JavaScript number is a finite value, an infinity or NaN. The finite values of the
  model are the rationals, which include every finite double. \<open>truthy\<close> is what
  \<^verbatim>\<open>||\<close> tests: 0 and NaN are falsy.
\<close>

datatype number = Finite rat | Infinity | NegInfinity | NaN

definition truthy :: "number \<Rightarrow> bool" where
  "truthy n = (case n of Finite q \<Rightarrow> q \<noteq> 0 | Infinity \<Rightarrow> True | NegInfinity \<Rightarrow> True | NaN \<Rightarrow> False)"

definition integer_text :: "number \<Rightarrow> string option" where
  \<comment> \<open>\<^verbatim>\<open>String(n)\<close>, the text ioredis sends for a number argument, when that text is
      the decimal text of an integer: \<open>n\<close> is integral and below \<open>10^21\<close> in
      magnitude. The text of every other number has a point, an exponent or letters,
      and the model answers \<open>None\<close>. Below \<open>2^54\<close> in magnitude the text is the
      exact digits; from there on JavaScript rounds the digits, and the server refuses
      the timeout either way, since it does not fit 64 bits once scaled to milliseconds.\<close>
  "integer_text n =
     (case n of
        Finite q \<Rightarrow>
          if of_int \<lfloor>q\<rfloor> = q \<and> \<bar>q\<bar> < 1000000000000000000000 then Some (ll2string \<lfloor>q\<rfloor>)
          else None
      | Infinity \<Rightarrow> None
      | NegInfinity \<Rightarrow> None
      | NaN \<Rightarrow> None)"

definition expire :: "nat \<Rightarrow> string \<Rightarrow> number \<Rightarrow> unit cmd" where
  \<comment> \<open>\<^verbatim>\<open>redis.expire(key, seconds)\<close> with a number: the server refuses text that is
      not an integer\<close>
  "expire now k seconds st =
     (case integer_text seconds of
        None \<Rightarrow> (Inl NotAnInteger, st)
      | Some text \<Rightarrow> EXPIRE now k text st)"

record config =
  receiptTTLSeconds :: number

definition Config :: "number \<Rightarrow> config" where
  \<comment> \<open>\<^verbatim>\<open>Number(env.RECEIPT_TTL) || 300\<close>: the argument is
      \<^verbatim>\<open>Number(env.RECEIPT_TTL)\<close>, which is NaN when the variable is unset or is not
      the text of a number\<close>
  "Config RECEIPT_TTL =
     \<lparr>receiptTTLSeconds = (if truthy RECEIPT_TTL then RECEIPT_TTL else Finite 300)\<rparr>"

definition BALANCE_KEY :: string where
  "BALANCE_KEY = ''ilpBalances''"

definition RECEIPT_KEY :: string where
  "RECEIPT_KEY = ''ilpReceipts''"

definition TEMP_KEY :: string where
  "TEMP_KEY = ''ilpTemp''"

text \<open>The key templates \<^verbatim>\<open>`${RECEIPT_KEY}:${nonce}`\<close>, \<^verbatim>\<open>`${TEMP_KEY}:${uuidv4()}`\<close>
  and \<^verbatim>\<open>`${BALANCE_KEY}:${id}`\<close>.\<close>

definition receipt_key :: "string \<Rightarrow> string" where
  "receipt_key n = RECEIPT_KEY @ '':'' @ n"

definition temp_key :: "string \<Rightarrow> string" where
  "temp_key uuid = TEMP_KEY @ '':'' @ uuid"

definition balance_key :: "string \<Rightarrow> string" where
  "balance_key ident = BALANCE_KEY @ '':'' @ ident"

definition setReceiptTTL :: "config \<Rightarrow> nat \<Rightarrow> string \<Rightarrow> store \<Rightarrow> unit result" where
  "setReceiptTTL cfg now nonce st =
     (let key = receipt_key nonce in
      case HSET now key ''dummy'' ''0'' st of
        (Inl e, st') \<Rightarrow> (Inl (ReplyError e), st')
      | (Inr _, st') \<Rightarrow>
          (case expire now key (receiptTTLSeconds cfg) st' of
             (Inl e, st'') \<Rightarrow> (Inl (ReplyError e), st'')
           | (Inr _, st'') \<Rightarrow> (Inr (), st'')))"

record receipt =
  nonce :: string \<comment> \<open>\<^verbatim>\<open>receipt.nonce.toString('base64')\<close>\<close>
  streamId :: string
  totalReceived :: long

definition getReceiptValue :: "nat \<Rightarrow> string \<Rightarrow> receipt \<Rightarrow> store \<Rightarrow> long result" where
  \<comment> \<open>\<open>uuid\<close> is the value \<^verbatim>\<open>uuidv4()\<close> returns in this call\<close>
  "getReceiptValue now uuid r st =
     (if compare (totalReceived r) MAX_VALUE = 1
      then (Inl (Error ''receipt amount exceeds max 64 bit signed integer''), st)
      else
        let key = receipt_key (nonce r) in
        case EXISTS now key st of
          (Inl e, st') \<Rightarrow> (Inl (ReplyError e), st')
        | (Inr ex, st') \<Rightarrow>
            if ex then
              (let tempKey = temp_key uuid in
               case getReceiptValue_lua now key tempKey (streamId r) (toString (totalReceived r)) st' of
                 (Inl e, st'') \<Rightarrow> (Inl (ReplyError e), st'')
               | (Inr v, st'') \<Rightarrow>
                   (case fromString v of
                      Some l \<Rightarrow> (Inr l, st'')
                    | None \<Rightarrow> (Inl (Error ''Long.fromString''), st'')))
            else (Inr UZERO, st'))"

definition creditBalance :: "nat \<Rightarrow> string \<Rightarrow> long \<Rightarrow> store \<Rightarrow> long result" where
  \<comment> \<open>the \<^verbatim>\<open>catch\<close> takes every error of the script call and of
      \<^verbatim>\<open>Long.fromString\<close>, and throws the same error for each\<close>
  "creditBalance now ident amount st =
     (if isNegative amount then (Inl (Error ''credit amount must not be negative''), st)
      else if compare amount MAX_VALUE = 1
      then (Inl (Error ''credit amount exceeds max 64 bit signed integer''), st)
      else
        let key = balance_key ident in
        case creditBalance_lua now key (toString amount) st of
          (Inl e, st') \<Rightarrow> (Inl (Error ''balance cannot exceed max 64 bit signed integer''), st')
        | (Inr None, st') \<Rightarrow> (Inl (Error ''balance cannot exceed max 64 bit signed integer''), st')
        | (Inr (Some balance), st') \<Rightarrow>
            (case fromString balance of
               Some l \<Rightarrow> (Inr l, st')
             | None \<Rightarrow> (Inl (Error ''balance cannot exceed max 64 bit signed integer''), st')))"

definition spendBalance :: "nat \<Rightarrow> string \<Rightarrow> long \<Rightarrow> store \<Rightarrow> long result" where
  "spendBalance now ident amount st =
     (if isNegative amount then (Inl (Error ''spend amount must not be negative''), st)
      else if compare amount MAX_VALUE = 1
      then (Inl (Error ''spend amount exceeds max 64 bit signed integer''), st)
      else
        let key = balance_key ident in
        case spendBalance_lua now key (toString amount) st of
          (Inl e, st') \<Rightarrow> (Inl (ReplyError e), st')
        | (Inr balance, st') \<Rightarrow>
            (case fromString balance of
               Some l \<Rightarrow> (Inr l, st')
             | None \<Rightarrow> (Inl (Error ''Long.fromString''), st')))"

definition createProxy ::
    "(string \<Rightarrow> string option) \<Rightarrow> (string \<Rightarrow> string) \<Rightarrow> string \<Rightarrow> store \<Rightarrow> string result" where
  \<comment> \<open>\<open>URL_href s\<close> is the \<^verbatim>\<open>href\<close> of \<^verbatim>\<open>new URL(s)\<close>, \<open>None\<close> where the constructor
      throws; \<open>sha256_hex s\<close> is the hex digest of SHA-256 of \<open>s\<close>\<close>
  "createProxy URL_href sha256_hex pointer st =
     (case URL_href (if take 1 pointer = ''$'' then ''https://'' @ drop 1 pointer else pointer) of
        None \<Rightarrow> (Inl (TypeError ''Invalid URL''), st)
      | Some href \<Rightarrow>
          let hashedPointer = sha256_hex pointer in
          case SET hashedPointer href st of
            (Inl e, st') \<Rightarrow> (Inl (ReplyError e), st')
          | (Inr _, st') \<Rightarrow> (Inr hashedPointer, st'))"

definition getPointer :: "nat \<Rightarrow> string \<Rightarrow> store \<Rightarrow> string result" where
  \<comment> \<open>\<^verbatim>\<open>if (pointer)\<close>: null and the empty string are falsy\<close>
  "getPointer now hashedPointer st =
     (case GET now hashedPointer st of
        (Inl e, st') \<Rightarrow> (Inl (ReplyError e), st')
      | (Inr None, st') \<Rightarrow> (Inl (Error ''pointer not found''), st')
      | (Inr (Some pointer), st') \<Rightarrow>
          if pointer \<noteq> [] then (Inr pointer, st')
          else (Inl (Error ''pointer not found''), st'))"

definition deleteProxy :: "string \<Rightarrow> store \<Rightarrow> unit result" where
  "deleteProxy hashedPointer st =
     (case DEL hashedPointer st of
        (Inl e, st') \<Rightarrow> (Inl (ReplyError e), st')
      | (Inr _, st') \<Rightarrow> (Inr (), st'))"

section \<open>Error kinds, sequences of calls and what the store holds\<close>

text \<open>The error kinds of the specification, as the service throws them.\<close>

definition AmountOverflow :: error where
  "AmountOverflow = Error ''receipt amount exceeds max 64 bit signed integer''"

definition BalanceOverflow :: error where
  "BalanceOverflow = Error ''balance cannot exceed max 64 bit signed integer''"

definition BalanceNotFound :: error where
  "BalanceNotFound = ReplyError (ErrorReply ''balance does not exist'')"

definition InsufficientBalance :: error where
  "InsufficientBalance = ReplyError (ErrorReply ''insufficient balance'')"

definition NotFound :: error where
  "NotFound = Error ''pointer not found''"

text \<open>
  \<open>getReceiptValues\<close> makes one \<open>getReceiptValue\<close> call after another for one nonce and
  one stream; each call has its time, its uuid and its cumulative total. \<open>delta\<close> is
  the amount a call returned; a call that threw returned none.
\<close>

definition delta :: "error + long \<Rightarrow> int" where
  "delta res = (case res of Inl e \<Rightarrow> 0 | Inr l \<Rightarrow> long_value l)"

fun getReceiptValues ::
    "string \<Rightarrow> string \<Rightarrow> (nat \<times> string \<times> long) list \<Rightarrow> store \<Rightarrow> (error + long) list \<times> store" where
  "getReceiptValues n sid [] st = ([], st)"
| "getReceiptValues n sid ((now, uuid, amount) # calls) st =
     (case getReceiptValue now uuid \<lparr>nonce = n, streamId = sid, totalReceived = amount\<rparr> st of
        (res, st') \<Rightarrow>
          (case getReceiptValues n sid calls st' of
             (rs, st'') \<Rightarrow> (res # rs, st'')))"

definition totals :: "(nat \<times> string \<times> long) list \<Rightarrow> int list" where
  "totals calls = map (\<lambda>(now, uuid, amount). long_value amount) calls"

definition live_at :: "entry \<Rightarrow> nat \<Rightarrow> bool" where
  "live_at e now = (case expires e of None \<Rightarrow> True | Some t \<Rightarrow> now < t)"

text \<open>
  \<open>stored_balance\<close> is the number a balance key holds at time \<open>now\<close>: 0 when the key
  is absent, \<open>None\<close> when it holds a hash or text that is not a 64-bit integer.
  \<open>balance_ok\<close> says that the number is there and not negative.
\<close>

definition stored_balance :: "nat \<Rightarrow> store \<Rightarrow> string \<Rightarrow> int option" where
  "stored_balance now st ident =
     (case lookupKey now st (balance_key ident) of
        None \<Rightarrow> Some 0
      | Some e \<Rightarrow> (case val e of Str s \<Rightarrow> string2ll s | Hash h \<Rightarrow> None))"

definition balance_ok :: "nat \<Rightarrow> store \<Rightarrow> string \<Rightarrow> bool" where
  "balance_ok now st ident =
     (case stored_balance now st ident of None \<Rightarrow> False | Some b \<Rightarrow> 0 \<le> b \<and> b \<le> LLONG_MAX)"

definition persistent :: "store \<Rightarrow> string \<Rightarrow> bool" where
  \<comment> \<open>the key, if present, has no expiry\<close>
  "persistent st k = (case st k of None \<Rightarrow> True | Some e \<Rightarrow> expires e = None)"

datatype balance_op = Credit long | Spend long

definition apply_op :: "nat \<Rightarrow> string \<Rightarrow> balance_op \<Rightarrow> store \<Rightarrow> long result" where
  "apply_op now ident op st =
     (case op of
        Credit amount \<Rightarrow> creditBalance now ident amount st
      | Spend amount \<Rightarrow> spendBalance now ident amount st)"

fun run_ops :: "string \<Rightarrow> (nat \<times> balance_op) list \<Rightarrow> store \<Rightarrow> ((error + long) \<times> store) list" where
  \<comment> \<open>the result of each operation and the store after it\<close>
  "run_ops ident [] st = []"
| "run_ops ident ((now, op) # ops) st =
     (case apply_op now ident op st of
        (res, st') \<Rightarrow> (res, st') # run_ops ident ops st')"

fun effect :: "balance_op \<Rightarrow> error + long \<Rightarrow> int" where
  \<comment> \<open>what a successful operation adds to the balance; a failed one adds nothing\<close>
  "effect (Credit amount) (Inr l) = long_value amount"
| "effect (Spend amount) (Inr l) = - long_value amount"
| "effect op (Inl e) = 0"

definition net_effect :: "(nat \<times> balance_op) list \<Rightarrow> ((error + long) \<times> store) list \<Rightarrow> int" where
  "net_effect ops trace = sum_list (map (\<lambda>((now, op), (res, st')). effect op res) (zip ops trace))"

definition final_store :: "store \<Rightarrow> ((error + long) \<times> store) list \<Rightarrow> store" where
  "final_store st trace = (if trace = [] then st else snd (last trace))"

text \<open>
  The registration of the specification, in its words: it ensures that a record exists
  for \<open>receiptId\<close>, with the placeholder field that holds the key in existence, and sets
  the record's expiry to \<open>ttlSeconds\<close> from now. It is compared with \<open>setReceiptTTL\<close>.
\<close>

definition registerValidityWindow :: "nat \<Rightarrow> string \<Rightarrow> nat \<Rightarrow> store \<Rightarrow> store" where
  "registerValidityWindow now receiptId ttlSeconds st =
     (let fields = (case lookupKey now st (receipt_key receiptId) of
                      None \<Rightarrow> Map.empty
                    | Some e \<Rightarrow> (case val e of Hash h \<Rightarrow> h | Str s \<Rightarrow> Map.empty))
      in st(receipt_key receiptId \<mapsto>
              \<lparr>val = Hash (fields(''dummy'' \<mapsto> ''0'')),
               expires = Some (now + 1000 * ttlSeconds)\<rparr>))"

section \<open>Facts about decimal text and Long values\<close>

lemma digit_val_digit_char: "d < 10 \<Longrightarrow> digit_val (digit_char d) = d"
proof -
  assume "d < 10"
  then have "d \<in> {0,1,2,3,4,5,6,7,8,9}" by auto
  then show ?thesis by (auto simp: digit_val_def digit_char_def)
qed

lemma digit_char_not_minus: "d < 10 \<Longrightarrow> digit_char d \<noteq> CHR ''-''"
proof -
  assume "d < 10"
  then have "d \<in> {0,1,2,3,4,5,6,7,8,9}" by auto
  then show ?thesis by (auto simp: digit_char_def)
qed

lemma dec_val_snoc: "dec_val (s @ [c]) = 10 * dec_val s + digit_val c"
  by (simp add: dec_val_def)

lemma dec_val_dec: "dec_val (dec n) = n"
proof (induction n rule: dec.induct)
  case (1 n)
  show ?case
  proof (cases "n < 10")
    case True
    then show ?thesis
      by (simp add: dec.simps [of n] dec_val_def digit_val_digit_char)
  next
    case False
    with 1 show ?thesis
      by (simp add: dec.simps [of n] dec_val_snoc digit_val_digit_char)
  qed
qed

lemma dec_first: "\<exists>d s. d < 10 \<and> dec n = digit_char d # s"
proof (induction n rule: dec.induct)
  case (1 n)
  show ?case
  proof (cases "n < 10")
    case True
    then show ?thesis by (auto simp: dec.simps [of n])
  next
    case False
    with 1 obtain d s where "d < 10" "dec (n div 10) = digit_char d # s" by auto
    with False show ?thesis by (auto simp: dec.simps [of n])
  qed
qed

lemma take1_dec: "take (Suc 0) (dec n) \<noteq> ''-''"
  using dec_first [of n] by (auto simp: digit_char_not_minus)

lemma take1_ll2string: "take (Suc 0) (ll2string v) = ''-'' \<longleftrightarrow> v < 0"
  by (simp add: ll2string_def take1_dec)

lemma string2ll_ll2string:
  "LLONG_MIN \<le> v \<Longrightarrow> v \<le> LLONG_MAX \<Longrightarrow> string2ll (ll2string v) = Some v"
  by (simp add: string2ll_def take1_ll2string) (simp add: ll2string_def dec_val_dec)

lemma string2ll_SomeD:
  "string2ll s = Some v \<Longrightarrow> s = ll2string v \<and> LLONG_MIN \<le> v \<and> v \<le> LLONG_MAX"
  by (auto simp: string2ll_def Let_def split: if_splits)

lemma fromString_ll2string:
  "LLONG_MIN \<le> v \<Longrightarrow> v \<le> LLONG_MAX \<Longrightarrow> fromString (ll2string v) = Some (Long (word_of_int v) False)"
  by (simp add: fromString_def string2ll_ll2string)

lemma sint_if:
  "sint (w :: 64 word) =
     (if uint w < 9223372036854775808 then uint w else uint w - 18446744073709551616)"
proof -
  have b: "0 \<le> uint w" "uint w < 18446744073709551616"
    using uint_lt2p [of w] by simp_all
  have s: "sint w = take_bit 64 (uint w + 9223372036854775808) - 9223372036854775808"
    by (simp add: sint_uint signed_take_bit_eq_take_bit_shift)
  show ?thesis
  proof (cases "uint w < 9223372036854775808")
    case True
    then have "(uint w + 9223372036854775808) mod 18446744073709551616 = uint w + 9223372036854775808"
      using b by (intro mod_pos_pos_trivial) simp_all
    then show ?thesis using True s by (simp add: take_bit_eq_mod)
  next
    case False
    define x where "x = uint w - 9223372036854775808"
    have x: "0 \<le> x" "x < 18446744073709551616" "uint w + 9223372036854775808 = x + 18446744073709551616"
      using b False by (simp_all add: x_def)
    have "(uint w + 9223372036854775808) mod 18446744073709551616 = x mod 18446744073709551616"
      unfolding x(3) by (rule mod_add_self2)
    also have "\<dots> = x"
      using x by (intro mod_pos_pos_trivial) simp_all
    also have "x = uint w + 9223372036854775808 - 18446744073709551616"
      by (simp add: x_def)
    finally show ?thesis using False s by (simp add: take_bit_eq_mod)
  qed
qed

lemma sint_neg_iff: "sint (w :: 64 word) < 0 \<longleftrightarrow> 9223372036854775808 \<le> uint w"
  using uint_lt2p [of w] by (simp add: sint_if)

lemma sint_nonneg: "\<not> sint (w :: 64 word) < 0 \<Longrightarrow> sint w = uint w"
  using uint_lt2p [of w] by (simp add: sint_if split: if_splits)

lemma uint_of_int64: "0 \<le> v \<Longrightarrow> v \<le> LLONG_MAX \<Longrightarrow> uint (word_of_int v :: 64 word) = v"
  by (simp add: uint_word_of_int take_bit_eq_mod LLONG_MAX_def)

lemma sint_of_int64:
  "LLONG_MIN \<le> v \<Longrightarrow> v \<le> LLONG_MAX \<Longrightarrow> sint (word_of_int v :: 64 word) = v"
  using signed_take_bit_int_eq_self [of 63 v]
  by (simp add: sint_sbintrunc' LLONG_MIN_def LLONG_MAX_def)

lemma long_value_of_int:
  "LLONG_MIN \<le> v \<Longrightarrow> v \<le> LLONG_MAX \<Longrightarrow> long_value (Long (word_of_int v) False) = v"
  by (simp add: long_value_def sint_of_int64)


lemma word_eq_max_iff: "(w :: 64 word) = 9223372036854775807 \<longleftrightarrow> uint w = 9223372036854775807"
  by (simp add: word_uint_eq_iff)

lemma compare_unsigned_MAX:
  "compare (Long w True) MAX_VALUE = 1 \<longleftrightarrow> LLONG_MAX < uint w"
  by (auto simp: compare_def eq_def isNegative_def MAX_VALUE_def LLONG_MAX_def sint_if word_less_def word_le_def word_eq_max_iff)

lemma compare_signed_MAX:
  assumes "\<not> isNegative (Long w False)"
  shows "compare (Long w False) MAX_VALUE \<noteq> 1"
proof (cases "uint w = 9223372036854775807")
  case True
  then show ?thesis
    by (simp add: compare_def eq_def MAX_VALUE_def word_eq_max_iff)
next
  case False
  from assms have lt: "uint w < 9223372036854775808"
    by (simp add: isNegative_def sint_neg_iff)
  have "uint (w - 9223372036854775807) = uint w - 9223372036854775807 + 18446744073709551616"
    using lt False by (simp add: uint_sub_if')
  then have "sint (w - 9223372036854775807) < 0"
    using lt False by (simp add: sint_neg_iff)
  then show ?thesis
    using False by (simp add: compare_def eq_def MAX_VALUE_def word_eq_max_iff isNegative_def sub_def)
qed

lemma valid_amount_range:
  assumes "\<not> isNegative a" and "compare a MAX_VALUE \<noteq> 1"
  shows "0 \<le> long_value a \<and> long_value a \<le> LLONG_MAX"
proof (cases a)
  case (Long w u)
  show ?thesis
  proof (cases u)
    case True
    with assms Long show ?thesis
      by (simp add: compare_unsigned_MAX long_value_def)
  next
    case False
    with assms Long show ?thesis
      by (simp add: isNegative_def long_value_def sint_nonneg LLONG_MAX_def)
        (simp add: sint_neg_iff)
  qed
qed

section \<open>Facts about the receipt script\<close>

lemma in_range_compare:
  assumes "0 \<le> long_value t" and "long_value t \<le> LLONG_MAX"
  shows "compare t MAX_VALUE \<noteq> 1" and "\<not> isNegative t"
proof -
  obtain w u where t: "t = Long w u" by (cases t)
  show n: "\<not> isNegative t"
    using assms t by (cases u) (simp_all add: isNegative_def long_value_def)
  show "compare t MAX_VALUE \<noteq> 1"
  proof (cases u)
    case True
    with assms t show ?thesis by (simp add: compare_unsigned_MAX long_value_def)
  next
    case False
    with n t show ?thesis by (simp add: compare_signed_MAX)
  qed
qed

lemma receipt_temp_key_neq [simp]: "receipt_key n \<noteq> temp_key u" "temp_key u \<noteq> receipt_key n"
  by (simp_all add: receipt_key_def temp_key_def RECEIPT_KEY_def TEMP_KEY_def)

lemma getReceiptValue_first:
  assumes v: "0 \<le> long_value (totalReceived r)" "long_value (totalReceived r) \<le> LLONG_MAX"
    and e: "lookupKey now st (receipt_key (nonce r)) = Some e" "val e = Hash h"
    and f: "h (streamId r) = None"
  shows "getReceiptValue now uuid r st =
           (Inr (Long (word_of_int (long_value (totalReceived r))) False),
            st(receipt_key (nonce r) \<mapsto>
                 e\<lparr>val := Hash (h(streamId r \<mapsto> ll2string (long_value (totalReceived r))))\<rparr>))"
proof -
  have min: "LLONG_MIN \<le> long_value (totalReceived r)"
    using v by (simp add: LLONG_MIN_def)
  show ?thesis
    using in_range_compare [OF v] e f
    by (simp add: getReceiptValue_def getReceiptValue_lua_def EXISTS_def HGET_def HSET_def
        bind_def reply_def toString_def fromString_ll2string [OF min v(2)])
qed


lemma incrDecr_Str:
  assumes "lookupKey now st k = Some e" "val e = Str (ll2string old)"
    and "LLONG_MIN \<le> old" "old \<le> LLONG_MAX"
    and "LLONG_MIN \<le> old + incr" "old + incr \<le> LLONG_MAX"
  shows "incrDecr now k incr st = (Inr (), st(k \<mapsto> e\<lparr>val := Str (ll2string (old + incr))\<rparr>))"
  using assms by (auto simp: incrDecr_def string2ll_ll2string)

lemma lookupKey_upd_same:
  "lookupKey now (st(k \<mapsto> e)) k = (case expires e of None \<Rightarrow> Some e | Some t \<Rightarrow> if now < t then Some e else None)"
  by (simp add: lookupKey_def)

lemma lookupKey_upd_other: "k' \<noteq> k \<Longrightarrow> lookupKey now (st(k \<mapsto> e)) k' = lookupKey now st k'"
  by (simp add: lookupKey_def)

lemma scratch_diff:
  assumes "LLONG_MIN \<le> v" "v \<le> LLONG_MAX" "LLONG_MIN < w" "w \<le> LLONG_MAX"
    and "LLONG_MIN \<le> v - w" "v - w \<le> LLONG_MAX"
  shows "bind (SET_EX now tk (ll2string v) (Suc 0))
           (\<lambda>_. bind (DECRBY now tk (ll2string w)) (\<lambda>_. bind (GET now tk) k)) st
         = k (Some (ll2string (v - w)))
             (st(tk \<mapsto> \<lparr>val = Str (ll2string (v - w)), expires = Some (now + 1000)\<rparr>))"
proof -
  let ?st1 = "st(tk \<mapsto> \<lparr>val = Str (ll2string v), expires = Some (now + 1000)\<rparr>)"
  have l1: "lookupKey now ?st1 tk = Some \<lparr>val = Str (ll2string v), expires = Some (now + 1000)\<rparr>"
    by (simp add: lookupKey_def)
  have d: "incrDecr now tk (- w) ?st1
             = (Inr (), ?st1(tk \<mapsto> \<lparr>val = Str (ll2string v), expires = Some (now + 1000)\<rparr>
                                   \<lparr>val := Str (ll2string (v + - w))\<rparr>))"
    using assms by (intro incrDecr_Str [OF l1]) simp_all
  have w: "string2ll (ll2string w) = Some w"
    using assms by (simp add: string2ll_ll2string)
  show ?thesis
    using assms(3) by (simp add: bind_def SET_EX_def DECRBY_def w d GET_def lookupKey_def)
qed


lemma getReceiptValue_next:
  assumes v: "0 \<le> long_value (totalReceived r)" "long_value (totalReceived r) \<le> LLONG_MAX"
    and e: "lookupKey now st (receipt_key (nonce r)) = Some e" "val e = Hash h"
    and f: "h (streamId r) = Some (ll2string w)"
    and w: "0 \<le> w" "w \<le> LLONG_MAX"
  shows "getReceiptValue now uuid r st =
           (if long_value (totalReceived r) < w
            then (Inr (Long 0 False),
                  st(temp_key uuid \<mapsto>
                       \<lparr>val = Str (ll2string (long_value (totalReceived r) - w)),
                        expires = Some (now + 1000)\<rparr>))
            else (Inr (Long (word_of_int (long_value (totalReceived r) - w)) False),
                  st(temp_key uuid \<mapsto>
                       \<lparr>val = Str (ll2string (long_value (totalReceived r) - w)),
                        expires = Some (now + 1000)\<rparr>,
                     receipt_key (nonce r) \<mapsto>
                       e\<lparr>val := Hash (h(streamId r \<mapsto> ll2string (long_value (totalReceived r))))\<rparr>)))"
proof -
  let ?v = "long_value (totalReceived r)"
  have r: "LLONG_MIN \<le> ?v" "LLONG_MIN < w" "LLONG_MIN \<le> ?v - w" "?v - w \<le> LLONG_MAX"
    using v w by (simp_all add: LLONG_MIN_def LLONG_MAX_def)
  note sd = scratch_diff [OF r(1) v(2) r(2) w(2) r(3) r(4)]
  have z: "fromString ''0'' = Some (Long 0 False)"
    using fromString_ll2string [of 0] by (simp add: ll2string_def dec.simps digit_char_def LLONG_MIN_def LLONG_MAX_def)
  have k: "lookupKey now (st(temp_key uuid \<mapsto> T)) (receipt_key (nonce r)) = Some e" for T
    using e(1) by (simp add: lookupKey_upd_other)
  show ?thesis
    using in_range_compare [OF v] e f
    by (simp add: getReceiptValue_def Let_def getReceiptValue_lua_def EXISTS_def HGET_def [of now "receipt_key _"]
        HSET_def bind_def [of "HGET _ _ _"] bind_def [of "HSET _ _ _ _"] reply_def toString_def sd take1_ll2string z k
        fromString_ll2string [OF r(3) r(4)])
qed

lemma compare_MAX_iff: "compare t MAX_VALUE = 1 \<longleftrightarrow> LLONG_MAX < long_value t"
proof (cases t)
  case (Long w u)
  show ?thesis
  proof (cases u)
    case True
    with Long show ?thesis by (simp add: compare_unsigned_MAX long_value_def)
  next
    case False
    have le: "sint w \<le> LLONG_MAX"
      using sint_lt [of w] by (simp add: LLONG_MAX_def)
    show ?thesis
    proof (cases "isNegative (Long w False)")
      case True
      then have "compare (Long w False) MAX_VALUE = - 1"
        by (auto simp: compare_def eq_def isNegative_def MAX_VALUE_def)
      with Long False le show ?thesis by (simp add: long_value_def)
    next
      case n: False
      with Long False le show ?thesis by (simp add: compare_signed_MAX long_value_def)
    qed
  qed
qed


lemma ll2string_0: "ll2string 0 = ''0''"
  by (simp add: ll2string_def dec.simps digit_char_def)


lemma lookupKey_live: "st k = Some e \<Longrightarrow> live_at e now \<Longrightarrow> lookupKey now st k = Some e"
  by (simp add: lookupKey_def live_at_def split: option.splits)

lemma delta_of_int:
  "LLONG_MIN \<le> v \<Longrightarrow> v \<le> LLONG_MAX \<Longrightarrow> delta (Inr (Long (word_of_int v) False)) = v"
  by (simp add: delta_def long_value_of_int)

lemma getReceiptValues_from_watermark:
  assumes "st (receipt_key n) = Some e" and "val e = Hash h"
    and "h sid = Some (ll2string w)" and "0 \<le> w"
    and "\<forall>(now, uuid, a) \<in> set calls. live_at e now \<and> w \<le> long_value a \<and> long_value a \<le> LLONG_MAX"
    and "sorted (totals calls)"
  shows "sum_list (map delta (fst (getReceiptValues n sid calls st))) = last (w # totals calls) - w
         \<and> (\<forall>res \<in> set (fst (getReceiptValues n sid calls st)). \<not> isl res)"
  using assms
proof (induction calls arbitrary: st e h w)
  case Nil
  then show ?case by (simp add: totals_def)
next
  case (Cons c calls)
  obtain now uuid a where c: "c = (now, uuid, a)" by (cases c)
  let ?r = "\<lparr>nonce = n, streamId = sid, totalReceived = a\<rparr>"
  let ?v = "long_value a"
  let ?e' = "e\<lparr>val := Hash (h(sid \<mapsto> ll2string ?v))\<rparr>"
  let ?st' = "st(temp_key uuid \<mapsto> \<lparr>val = Str (ll2string (?v - w)), expires = Some (now + 1000)\<rparr>,
                 receipt_key n \<mapsto> ?e')"
  from Cons.prems(5) c have a: "live_at e now" "w \<le> ?v" "?v \<le> LLONG_MAX" by simp_all
  have w: "w \<le> LLONG_MAX" using a by simp
  have v0: "0 \<le> ?v" using a Cons.prems(4) by simp
  have lk: "lookupKey now st (receipt_key (nonce ?r)) = Some e"
    using Cons.prems(1) a(1) by (simp add: lookupKey_live)
  have step: "getReceiptValue now uuid ?r st = (Inr (Long (word_of_int (?v - w)) False), ?st')"
    using getReceiptValue_next [of ?r now st e h w uuid] v0 a lk Cons.prems(2,3,4) w by simp
  have d: "delta (Inr (Long (word_of_int (?v - w)) False)) = ?v - w"
    using a Cons.prems(4) by (intro delta_of_int) (simp_all add: LLONG_MIN_def LLONG_MAX_def)
  have rest: "\<forall>(now, uuid, b) \<in> set calls. live_at ?e' now \<and> ?v \<le> long_value b \<and> long_value b \<le> LLONG_MAX"
    using Cons.prems(5,6) c by (auto simp: totals_def live_at_def)
  have sorted': "sorted (totals calls)"
    using Cons.prems(6) by (simp add: totals_def)
  have ih: "sum_list (map delta (fst (getReceiptValues n sid calls ?st'))) = last (?v # totals calls) - ?v
            \<and> (\<forall>res \<in> set (fst (getReceiptValues n sid calls ?st')). \<not> isl res)"
    by (rule Cons.IH [of ?st' ?e' "h(sid \<mapsto> ll2string ?v)" ?v]) (use v0 rest sorted' in \<open>simp_all add: fun_eq_iff\<close>)
  obtain rs st2 where g: "getReceiptValues n sid calls ?st' = (rs, st2)"
    by (cases "getReceiptValues n sid calls ?st'")
  from ih g have "sum_list (map delta rs) = last (?v # totals calls) - ?v" "\<forall>res \<in> set rs. \<not> isl res"
    by simp_all
  then show ?case
    using d by (simp add: c step g totals_def)
qed



section \<open>A fact about entries\<close>

lemma entry_update_all: "e\<lparr>val := a, expires := b\<rparr> = \<lparr>val = a, expires = b\<rparr>"
  by (cases e) simp

section \<open>Facts about the balance scripts\<close>

lemma lookupKey_SomeD: "lookupKey now st k = Some e \<Longrightarrow> st k = Some e \<and> live_at e now"
  by (auto simp: lookupKey_def live_at_def split: option.splits if_splits)

lemma lookupKey_val_upd:
  "lookupKey now st k = Some e \<Longrightarrow> lookupKey now (st(k \<mapsto> e\<lparr>val := v\<rparr>)) k = Some (e\<lparr>val := v\<rparr>)"
  by (auto simp: lookupKey_def split: option.splits if_splits)

lemma creditBalance_lua_absent:
  assumes "lookupKey now st k = None" and "0 \<le> a" and "a \<le> LLONG_MAX"
  shows "creditBalance_lua now k (ll2string a) st =
           (Inr (Some (ll2string a)), st(k \<mapsto> \<lparr>val = Str (ll2string a), expires = None\<rparr>))"
proof -
  have "string2ll (ll2string a) = Some a"
    using assms by (intro string2ll_ll2string) (simp_all add: LLONG_MIN_def)
  then show ?thesis
    using assms(1)
    by (simp add: creditBalance_lua_def bind_def INCRBY_def incrDecr_def GET_def lookupKey_upd_same)
qed

lemma creditBalance_lua_int:
  assumes "lookupKey now st k = Some e" and "val e = Str s" and "string2ll s = Some b"
    and "0 \<le> a" and "a \<le> LLONG_MAX"
  shows "creditBalance_lua now k (ll2string a) st =
           (if LLONG_MAX < b + a then (Inl WouldOverflow, st)
            else (Inr (Some (ll2string (b + a))), st(k \<mapsto> e\<lparr>val := Str (ll2string (b + a))\<rparr>)))"
proof -
  have a: "string2ll (ll2string a) = Some a"
    using assms by (intro string2ll_ll2string) (simp_all add: LLONG_MIN_def)
  have b: "LLONG_MIN \<le> b" "b \<le> LLONG_MAX"
    using string2ll_SomeD [OF assms(3)] by simp_all
  have ov: "(a < 0 \<and> b < 0 \<and> a < LLONG_MIN - b \<or> 0 < a \<and> 0 < b \<and> LLONG_MAX - b < a)
              \<longleftrightarrow> LLONG_MAX < b + a"
    using assms(4,5) b by (auto simp: LLONG_MAX_def LLONG_MIN_def)
  show ?thesis
    using assms(1,2,3) ov
    by (simp add: creditBalance_lua_def bind_def INCRBY_def a incrDecr_def GET_def lookupKey_val_upd)
qed

lemma creditBalance_lua_not_int:
  assumes "lookupKey now st k = Some e" and "val e = Str s" and "string2ll s = None"
    and "0 \<le> a" and "a \<le> LLONG_MAX"
  shows "creditBalance_lua now k (ll2string a) st = (Inl NotAnInteger, st)"
proof -
  have a: "string2ll (ll2string a) = Some a"
    using assms by (intro string2ll_ll2string) (simp_all add: LLONG_MIN_def)
  show ?thesis
    using assms(1,2,3)
    by (simp add: creditBalance_lua_def bind_def INCRBY_def a incrDecr_def)
qed

lemma creditBalance_lua_hash:
  assumes "lookupKey now st k = Some e" and "val e = Hash h"
    and "0 \<le> a" and "a \<le> LLONG_MAX"
  shows "creditBalance_lua now k (ll2string a) st = (Inl WRONGTYPE, st)"
proof -
  have a: "string2ll (ll2string a) = Some a"
    using assms by (intro string2ll_ll2string) (simp_all add: LLONG_MIN_def)
  show ?thesis
    using assms(1,2)
    by (simp add: creditBalance_lua_def bind_def INCRBY_def a incrDecr_def)
qed


lemma spendBalance_lua_absent:
  assumes "lookupKey now st k = None"
  shows "spendBalance_lua now k amount st = (Inl (ErrorReply ''balance does not exist''), st)"
  using assms by (simp add: spendBalance_lua_def bind_def GET_def fail_def)

lemma spendBalance_lua_int:
  assumes "lookupKey now st k = Some e" and "val e = Str s" and "string2ll s = Some b"
    and "0 \<le> b" and "0 \<le> a" and "a \<le> LLONG_MAX"
  shows "spendBalance_lua now k (ll2string a) st =
           (if b < a then (Inl (ErrorReply ''insufficient balance''), st)
            else (Inr (ll2string (b - a)), st(k \<mapsto> e\<lparr>val := Str (ll2string (b - a))\<rparr>)))"
proof -
  have a: "string2ll (ll2string a) = Some a" "a \<noteq> LLONG_MIN"
    using assms by (simp_all add: string2ll_ll2string LLONG_MIN_def)
  have b: "s = ll2string b" "LLONG_MIN \<le> b" "b \<le> LLONG_MAX"
    using string2ll_SomeD [OF assms(3)] by simp_all
  have d: "LLONG_MIN \<le> b - a" "b - a \<le> LLONG_MAX"
    using assms(4,5,6) b by (simp_all add: LLONG_MIN_def LLONG_MAX_def)
  have st: "st k = Some e"
    using lookupKey_SomeD [OF assms(1)] by simp
  have e: "e\<lparr>val := Str (ll2string b)\<rparr> = e"
    using assms(2) b(1) by simp
  let ?e1 = "e\<lparr>val := Str (ll2string (b - a))\<rparr>"
  let ?st1 = "st(k \<mapsto> ?e1)"
  have dec: "incrDecr now k (- a) st = (Inr (), ?st1)"
    using incrDecr_Str [of now st k e b "- a"] assms(1,2) b d by simp
  have lk1: "lookupKey now ?st1 k = Some ?e1"
    using assms(1) by (rule lookupKey_val_upd)
  have inc: "incrDecr now k a ?st1 = (Inr (), st)"
    using incrDecr_Str [OF lk1, of "b - a" a] d b e st by (simp add: map_upd_triv)
  have neg: "take (Suc 0) (ll2string (b - a)) = ''-'' \<longleftrightarrow> b < a"
    by (simp add: take1_ll2string)
  show ?thesis
    using assms(1,2)
    by (simp add: spendBalance_lua_def bind_def GET_def [of now k st] GET_def [of now k ?st1]
        DECRBY_def INCRBY_def a dec lk1 neg inc fail_def reply_def)
qed

lemma creditBalance_success:
  assumes a: "0 \<le> long_value a" "long_value a \<le> LLONG_MAX"
    and b: "stored_balance now st ident = Some b" "b + long_value a \<le> LLONG_MAX"
  shows "creditBalance now ident a st =
           (Inr (Long (word_of_int (b + long_value a)) False),
            st(balance_key ident \<mapsto>
                 (case lookupKey now st (balance_key ident) of
                    None \<Rightarrow> \<lparr>val = Str (ll2string (b + long_value a)), expires = None\<rparr>
                  | Some e \<Rightarrow> e\<lparr>val := Str (ll2string (b + long_value a))\<rparr>)))"
proof (cases "lookupKey now st (balance_key ident)")
  case None
  with b have b0: "b = 0" by (simp add: stored_balance_def)
  have "fromString (ll2string (long_value a)) = Some (Long (word_of_int (long_value a)) False)"
    using a by (intro fromString_ll2string) (simp_all add: LLONG_MIN_def)
  then show ?thesis
    using in_range_compare [OF a] None b0 creditBalance_lua_absent [OF None a]
    by (simp add: creditBalance_def toString_def)
next
  case (Some e)
  with b obtain s where s: "val e = Str s" "string2ll s = Some b"
    by (cases "val e") (simp_all add: stored_balance_def)
  have "LLONG_MIN \<le> b"
    using string2ll_SomeD [OF s(2)] by simp
  then have "fromString (ll2string (b + long_value a)) = Some (Long (word_of_int (b + long_value a)) False)"
    using a b by (intro fromString_ll2string) (simp_all add: LLONG_MIN_def)
  then show ?thesis
    using in_range_compare [OF a] Some b(2) creditBalance_lua_int [OF Some s a]
    by (simp add: creditBalance_def toString_def)
qed

lemma creditBalance_failure:
  assumes a: "0 \<le> long_value a" "long_value a \<le> LLONG_MAX"
    and b: "case stored_balance now st ident of None \<Rightarrow> True | Some b \<Rightarrow> LLONG_MAX < b + long_value a"
  shows "creditBalance now ident a st = (Inl BalanceOverflow, st)"
proof (cases "lookupKey now st (balance_key ident)")
  case None
  with a b show ?thesis by (simp add: stored_balance_def)
next
  case (Some e)
  show ?thesis
  proof (cases "val e")
    case (Hash h)
    show ?thesis
      using in_range_compare [OF a] creditBalance_lua_hash [OF Some Hash a]
      by (simp add: creditBalance_def toString_def BalanceOverflow_def)
  next
    case (Str s)
    show ?thesis
    proof (cases "string2ll s")
      case None
      show ?thesis
        using in_range_compare [OF a] creditBalance_lua_not_int [OF Some Str None a]
        by (simp add: creditBalance_def toString_def BalanceOverflow_def)
    next
      case (Some b')
      with b \<open>lookupKey now st (balance_key ident) = Some e\<close> Str
      have "LLONG_MAX < b' + long_value a" by (simp add: stored_balance_def)
      then show ?thesis
        using in_range_compare [OF a]
          creditBalance_lua_int [OF \<open>lookupKey now st (balance_key ident) = Some e\<close> Str Some a]
        by (simp add: creditBalance_def toString_def BalanceOverflow_def)
    qed
  qed
qed

lemma creditBalance_invalid:
  assumes "isNegative a \<or> compare a MAX_VALUE = 1"
  shows "snd (creditBalance now ident a st) = st \<and> isl (fst (creditBalance now ident a st))"
  using assms by (auto simp: creditBalance_def)

lemma spendBalance_invalid:
  assumes "isNegative a \<or> compare a MAX_VALUE = 1"
  shows "snd (spendBalance now ident a st) = st \<and> isl (fst (spendBalance now ident a st))"
  using assms by (auto simp: spendBalance_def)

lemma spendBalance_absent:
  assumes a: "0 \<le> long_value a" "long_value a \<le> LLONG_MAX"
    and "lookupKey now st (balance_key ident) = None"
  shows "spendBalance now ident a st = (Inl BalanceNotFound, st)"
  using in_range_compare [OF a] spendBalance_lua_absent [OF assms(3)]
  by (simp add: spendBalance_def BalanceNotFound_def)

lemma spendBalance_present:
  assumes a: "0 \<le> long_value a" "long_value a \<le> LLONG_MAX"
    and e: "lookupKey now st (balance_key ident) = Some e"
    and b: "stored_balance now st ident = Some b" "0 \<le> b"
  shows "spendBalance now ident a st =
           (if b < long_value a then (Inl InsufficientBalance, st)
            else (Inr (Long (word_of_int (b - long_value a)) False),
                  st(balance_key ident \<mapsto> e\<lparr>val := Str (ll2string (b - long_value a))\<rparr>)))"
proof -
  from e b obtain s where s: "val e = Str s" "string2ll s = Some b"
    by (cases "val e") (simp_all add: stored_balance_def)
  have "b \<le> LLONG_MAX"
    using string2ll_SomeD [OF s(2)] by simp
  then have "fromString (ll2string (b - long_value a)) = Some (Long (word_of_int (b - long_value a)) False)"
    using a b by (intro fromString_ll2string) (simp_all add: LLONG_MIN_def LLONG_MAX_def)
  then show ?thesis
    using in_range_compare [OF a] spendBalance_lua_int [OF e s b(2) a]
    by (simp add: spendBalance_def toString_def InsufficientBalance_def)
qed



lemma stored_balance_ge: "stored_balance now st ident = Some b \<Longrightarrow> LLONG_MIN \<le> b \<and> b \<le> LLONG_MAX"
  by (auto simp: stored_balance_def LLONG_MIN_def LLONG_MAX_def dest: string2ll_SomeD
      split: option.splits rvalue.splits)

lemma stored_balance_upd:
  assumes "LLONG_MIN \<le> v" and "v \<le> LLONG_MAX"
    and "lookupKey now (st(balance_key ident \<mapsto> e)) (balance_key ident) = Some e"
    and "val e = Str (ll2string v)"
  shows "stored_balance now (st(balance_key ident \<mapsto> e)) ident = Some v"
  using assms by (simp add: stored_balance_def string2ll_ll2string)

lemma stored_balance_after_credit:
  assumes a: "0 \<le> long_value a" "long_value a \<le> LLONG_MAX"
    and b: "stored_balance now st ident = Some b" "b + long_value a \<le> LLONG_MAX"
  shows "stored_balance now (snd (creditBalance now ident a st)) ident = Some (b + long_value a)"
proof -
  have r: "LLONG_MIN \<le> b + long_value a"
    using stored_balance_ge [OF b(1)] a by simp
  show ?thesis
  proof (cases "lookupKey now st (balance_key ident)")
    case None
    then show ?thesis
      using creditBalance_success [OF a b] r b(2)
      by (simp add: stored_balance_upd lookupKey_upd_same)
  next
    case (Some e)
    then show ?thesis
      using creditBalance_success [OF a b] r b(2)
      by (simp add: stored_balance_upd lookupKey_val_upd)
  qed
qed


lemma stored_balance_after_spend:
  assumes a: "0 \<le> long_value a" "long_value a \<le> LLONG_MAX"
    and e: "lookupKey now st (balance_key ident) = Some e"
    and b: "stored_balance now st ident = Some b" "long_value a \<le> b"
  shows "stored_balance now (snd (spendBalance now ident a st)) ident = Some (b - long_value a)"
proof -
  have r: "LLONG_MIN \<le> b - long_value a" "b - long_value a \<le> LLONG_MAX" "0 \<le> b"
    using stored_balance_ge [OF b(1)] a b(2) by (simp_all add: LLONG_MIN_def)
  show ?thesis
    using spendBalance_present [OF a e b(1) r(3)] b(2) r e
    by (simp add: stored_balance_upd lookupKey_val_upd)
qed


lemma string2ll_15: "string2ll ''15'' = Some 15"
  by (simp add: string2ll_def dec_val_def digit_val_def ll2string_def dec.simps digit_char_def
      LLONG_MAX_def LLONG_MIN_def)


lemma persistent_lookup: "persistent st k \<Longrightarrow> lookupKey now st k = st k"
  by (auto simp: persistent_def lookupKey_def split: option.splits)

lemma stored_balance_time:
  "persistent st (balance_key ident) \<Longrightarrow> stored_balance t st ident = stored_balance t' st ident"
  by (simp add: stored_balance_def persistent_lookup)

lemma credit_step:
  assumes b: "stored_balance now st ident = Some b" "0 \<le> b"
    and p: "persistent st (balance_key ident)"
  shows "stored_balance now (snd (creditBalance now ident a st)) ident
           = Some (b + effect (Credit a) (fst (creditBalance now ident a st)))
         \<and> 0 \<le> b + effect (Credit a) (fst (creditBalance now ident a st))
         \<and> persistent (snd (creditBalance now ident a st)) (balance_key ident)"
proof (cases "isNegative a \<or> compare a MAX_VALUE = 1")
  case True
  from creditBalance_invalid [OF True, of now ident st] b p show ?thesis
    by (cases "fst (creditBalance now ident a st)") simp_all
next
  case False
  then have a: "0 \<le> long_value a" "long_value a \<le> LLONG_MAX"
    using valid_amount_range [of a] by simp_all
  show ?thesis
  proof (cases "b + long_value a \<le> LLONG_MAX")
    case True
    have "persistent (snd (creditBalance now ident a st)) (balance_key ident)"
      using creditBalance_success [OF a b(1) True] p
      by (auto simp: persistent_def persistent_lookup split: option.splits)
    then show ?thesis
      using creditBalance_success [OF a b(1) True] stored_balance_after_credit [OF a b(1) True] a b(2)
      by simp
  next
    case False
    then have "case stored_balance now st ident of None \<Rightarrow> True | Some b \<Rightarrow> LLONG_MAX < b + long_value a"
      using b(1) by simp
    from creditBalance_failure [OF a this] b p show ?thesis by simp
  qed
qed

lemma spend_step:
  assumes b: "stored_balance now st ident = Some b" "0 \<le> b"
    and p: "persistent st (balance_key ident)"
  shows "stored_balance now (snd (spendBalance now ident a st)) ident
           = Some (b + effect (Spend a) (fst (spendBalance now ident a st)))
         \<and> 0 \<le> b + effect (Spend a) (fst (spendBalance now ident a st))
         \<and> persistent (snd (spendBalance now ident a st)) (balance_key ident)"
proof (cases "isNegative a \<or> compare a MAX_VALUE = 1")
  case True
  from spendBalance_invalid [OF True, of now ident st] b p show ?thesis
    by (cases "fst (spendBalance now ident a st)") simp_all
next
  case False
  then have a: "0 \<le> long_value a" "long_value a \<le> LLONG_MAX"
    using valid_amount_range [of a] by simp_all
  show ?thesis
  proof (cases "lookupKey now st (balance_key ident)")
    case None
    from spendBalance_absent [OF a None] b p show ?thesis by simp
  next
    case (Some e)
    show ?thesis
    proof (cases "b < long_value a")
      case True
      with spendBalance_present [OF a Some b] b p show ?thesis by simp
    next
      case False
      then have le: "long_value a \<le> b" by simp
      have "expires e = None"
        using Some p by (simp add: persistent_lookup persistent_def)
      then have "persistent (snd (spendBalance now ident a st)) (balance_key ident)"
        using spendBalance_present [OF a Some b] False by (simp add: persistent_def)
      then show ?thesis
        using spendBalance_present [OF a Some b] stored_balance_after_spend [OF a Some b(1) le] False
        by simp
    qed
  qed
qed

lemma apply_op_step:
  assumes "stored_balance now st ident = Some b" and "0 \<le> b"
    and "persistent st (balance_key ident)"
  shows "stored_balance now (snd (apply_op now ident op st)) ident
           = Some (b + effect op (fst (apply_op now ident op st)))
         \<and> 0 \<le> b + effect op (fst (apply_op now ident op st))
         \<and> persistent (snd (apply_op now ident op st)) (balance_key ident)"
  using credit_step [OF assms] spend_step [OF assms]
  by (cases op) (simp_all add: apply_op_def)


lemma final_store_Cons:
  "final_store st ((res, st') # trace) = final_store st' trace"
  by (simp add: final_store_def)

lemma net_effect_Cons:
  "net_effect ((now, op) # ops) ((res, st') # trace) = effect op res + net_effect ops trace"
  by (simp add: net_effect_def)

lemma run_ops_invariant:
  assumes "stored_balance now0 st ident = Some b" and "0 \<le> b"
    and "persistent st (balance_key ident)"
  shows "stored_balance t (final_store st (run_ops ident ops st)) ident
           = Some (b + net_effect ops (run_ops ident ops st))
         \<and> (\<forall>(res, st') \<in> set (run_ops ident ops st). balance_ok t st' ident)"
  using assms
proof (induction ops arbitrary: st b now0)
  case Nil
  then show ?case
    using stored_balance_time [of st ident t now0]
    by (simp add: final_store_def net_effect_def)
next
  case (Cons c ops)
  obtain now op where c: "c = (now, op)" by (cases c)
  obtain res st' where r: "apply_op now ident op st = (res, st')"
    by (cases "apply_op now ident op st")
  have b0: "stored_balance now st ident = Some b"
    using Cons.prems(1,3) stored_balance_time [of st ident now now0] by simp
  from apply_op_step [OF b0 Cons.prems(2,3), of op] r
  have s: "stored_balance now st' ident = Some (b + effect op res)" "0 \<le> b + effect op res"
    "persistent st' (balance_key ident)"
    by simp_all
  have ok: "balance_ok t st' ident"
    using s stored_balance_ge [OF s(1)] stored_balance_time [of st' ident t now]
    by (simp add: balance_ok_def)
  from Cons.IH [OF s]
  have ih: "stored_balance t (final_store st' (run_ops ident ops st')) ident
              = Some (b + effect op res + net_effect ops (run_ops ident ops st'))"
    "\<forall>(res, st'') \<in> set (run_ops ident ops st'). balance_ok t st'' ident"
    by simp_all
  show ?case
    using ih ok by (simp add: c r final_store_Cons net_effect_Cons add.assoc)
qed


section \<open>Facts about the proxy registry\<close>

lemma getPointer_after_delete:
  "fst (getPointer now h (snd (deleteProxy h st))) = Inl NotFound"
  by (simp add: getPointer_def deleteProxy_def DEL_def GET_def lookupKey_def NotFound_def)

lemma createProxy_ok:
  assumes "URL_href (if take 1 pointer = ''$'' then ''https://'' @ drop 1 pointer else pointer) = Some href"
  shows "createProxy URL_href sha256_hex pointer st =
           (Inr (sha256_hex pointer), st(sha256_hex pointer \<mapsto> \<lparr>val = Str href, expires = None\<rparr>))"
  using assms by (simp add: createProxy_def SET_def Let_def)

lemma getPointer_Str:
  assumes "st h = Some \<lparr>val = Str p, expires = None\<rparr>" and "p \<noteq> []"
  shows "getPointer now h st = (Inr p, st)"
  using assms by (simp add: getPointer_def GET_def lookupKey_def)


section \<open>Facts about the timeout of a registration\<close>

lemma integer_text_of_int:
  assumes "LLONG_MIN \<le> s" and "s \<le> LLONG_MAX"
  shows "integer_text (Finite (of_int s)) = Some (ll2string s)"
proof -
  have "\<bar>s\<bar> < 1000000000000000000000"
    using assms by (simp add: LLONG_MIN_def LLONG_MAX_def)
  then have "\<bar>(of_int s :: rat)\<bar> < 1000000000000000000000"
    by (metis of_int_abs of_int_less_iff of_int_numeral)
  then show ?thesis
    by (simp add: integer_text_def)
qed

lemma EXPIRE_positive:
  assumes "0 < s" and "int now + 1000 * s \<le> LLONG_MAX"
    and "lookupKey now st k = Some e"
  shows "EXPIRE now k (ll2string s) st =
           (Inr (), st(k \<mapsto> e\<lparr>expires := Some (now + 1000 * nat s)\<rparr>))"
proof -
  have r: "LLONG_MIN \<le> s" "s \<le> LLONG_MAX"
    using assms(1,2) by (simp_all add: LLONG_MIN_def)
  have d: "s \<le> LLONG_MAX div 1000" "\<not> s < - (LLONG_MAX div 1000)"
    using assms(1,2) by (simp_all add: LLONG_MAX_def)
  have n: "nat (int now + 1000 * s) = now + 1000 * nat s"
    using assms(1) by (simp add: nat_add_distrib nat_mult_distrib)
  show ?thesis
    using assms d n by (simp add: EXPIRE_def string2ll_ll2string [OF r])
qed

lemma expire_positive:
  assumes "0 < s" and "int now + 1000 * s \<le> LLONG_MAX"
    and "lookupKey now st k = Some e"
  shows "expire now k (Finite (of_int s)) st =
           (Inr (), st(k \<mapsto> e\<lparr>expires := Some (now + 1000 * nat s)\<rparr>))"
proof -
  have r: "LLONG_MIN \<le> s" "s \<le> LLONG_MAX"
    using assms(1,2) by (simp_all add: LLONG_MIN_def)
  show ?thesis
    using EXPIRE_positive [OF assms] by (simp add: expire_def integer_text_of_int [OF r])
qed

lemma setReceiptTTL_absent:
  assumes "receiptTTLSeconds cfg = Finite (of_int s)" and "0 < s" and "int now + 1000 * s \<le> LLONG_MAX"
    and "lookupKey now st (receipt_key n) = None"
  shows "setReceiptTTL cfg now n st =
           (Inr (), st(receipt_key n \<mapsto> \<lparr>val = Hash [''dummy'' \<mapsto> ''0''],
                                           expires = Some (now + 1000 * nat s)\<rparr>))"
proof -
  let ?e = "\<lparr>val = Hash [''dummy'' \<mapsto> ''0''], expires = None\<rparr>"
  have "lookupKey now (st(receipt_key n \<mapsto> ?e)) (receipt_key n) = Some ?e"
    by (simp add: lookupKey_upd_same)
  from expire_positive [OF assms(2,3) this] assms(1,4) show ?thesis
    by (simp add: setReceiptTTL_def HSET_def)
qed

lemma setReceiptTTL_hash:
  assumes "receiptTTLSeconds cfg = Finite (of_int s)" and "0 < s" and "int now + 1000 * s \<le> LLONG_MAX"
    and "lookupKey now st (receipt_key n) = Some e" and "val e = Hash h"
  shows "setReceiptTTL cfg now n st =
           (Inr (), st(receipt_key n \<mapsto> \<lparr>val = Hash (h(''dummy'' \<mapsto> ''0'')),
                                           expires = Some (now + 1000 * nat s)\<rparr>))"
proof -
  let ?e = "e\<lparr>val := Hash (h(''dummy'' \<mapsto> ''0''))\<rparr>"
  have "lookupKey now (st(receipt_key n \<mapsto> ?e)) (receipt_key n) = Some ?e"
    using assms(4) by (rule lookupKey_val_upd)
  from expire_positive [OF assms(2,3) this] assms(1,4,5) show ?thesis
    by (simp add: setReceiptTTL_def HSET_def entry_update_all)
qed


lemma setReceiptTTL_refused:
  assumes "integer_text (receiptTTLSeconds cfg) = None"
    and "\<forall>e t. lookupKey now st (receipt_key n) = Some e \<longrightarrow> val e \<noteq> Str t"
  shows "setReceiptTTL cfg now n st =
           (Inl (ReplyError NotAnInteger), snd (HSET now (receipt_key n) ''dummy'' ''0'' st))"
proof (cases "lookupKey now st (receipt_key n)")
  case None
  then show ?thesis
    using assms(1) by (simp add: setReceiptTTL_def HSET_def expire_def)
next
  case (Some e)
  with assms(2) obtain h where "val e = Hash h" by (cases "val e") auto
  with Some show ?thesis
    using assms(1) by (simp add: setReceiptTTL_def HSET_def expire_def)
qed


lemma registerValidityWindow_lookup:
  "0 < ttl \<Longrightarrow> now \<le> now' \<Longrightarrow> now' < now + 1000 * ttl \<Longrightarrow>
   lookupKey now' (registerValidityWindow now n ttl st) (receipt_key n)
     = registerValidityWindow now n ttl st (receipt_key n)"
  by (simp add: registerValidityWindow_def Let_def lookupKey_def)



lemma integer_text_fraction: "integer_text (Finite (3 / 2)) = None"
proof -
  have "\<lfloor>3 / 2 :: rat\<rfloor> = 1"
    by (rule floor_unique) simp_all
  then show ?thesis
    by (simp add: integer_text_def)
qed

lemma integer_text_minus_one: "integer_text (Finite (- 1)) = Some (ll2string (- 1))"
  using integer_text_of_int [of "- 1"] by (simp add: LLONG_MIN_def LLONG_MAX_def)

lemma string2ll_minus_one: "string2ll (ll2string (- 1)) = Some (- 1)"
  by (rule string2ll_ll2string) (simp_all add: LLONG_MIN_def LLONG_MAX_def)

lemma getReceiptValue_rejects:
  "LLONG_MAX < long_value (totalReceived r) \<Longrightarrow> getReceiptValue now uuid r st = (Inl AmountOverflow, st)"
  by (simp add: getReceiptValue_def compare_MAX_iff AmountOverflow_def)

lemma setReceiptTTL_default:
  "setReceiptTTL (Config NaN) 0 ''r1'' Map.empty
     = (Inr (), [receipt_key ''r1'' \<mapsto> \<lparr>val = Hash [''dummy'' \<mapsto> ''0''], expires = Some 300000\<rparr>])"
  using setReceiptTTL_absent [of "Config NaN" 300 0 Map.empty "''r1''"]
  by (simp add: Config_def truthy_def lookupKey_def LLONG_MAX_def)


section \<open>The receipt watermark\<close>

text \<open>
  C1, as stated: for a registered, unexpired receipt record and a sequence of
  \<open>getReceiptValue\<close> calls with non-decreasing cumulative totals for one nonce and
  stream, the deltas returned add up to the last total passed in. The service rejects
  a total above the signed 64-bit maximum before it looks at the store, so the call
  with total \<open>2^63\<close> on a freshly registered record throws and returns no delta. And
  on the record that a call with total 10 has left, with the watermark 10 for the
  stream, the calls with totals 15 and 20 return 5 and 5, which add up to 10, not to 20.
\<close>

theorem total_above_max_counterexample:
  "fst (getReceiptValues ''r1'' ''s1'' [(3, ''u1'', Long 0x8000000000000000 True)]
          (snd (setReceiptTTL (Config NaN) 0 ''r1'' Map.empty))) = [Inl AmountOverflow]
   \<and> sum_list (map delta (fst (getReceiptValues ''r1'' ''s1'' [(3, ''u1'', Long 0x8000000000000000 True)]
          (snd (setReceiptTTL (Config NaN) 0 ''r1'' Map.empty))))) = 0
   \<and> last (totals [(3, ''u1'', Long 0x8000000000000000 True)]) = 9223372036854775808
   \<and> fst (getReceiptValue 3 ''u1'' \<lparr>nonce = ''r1'', streamId = ''s1'', totalReceived = Long 10 True\<rparr>
          (snd (setReceiptTTL (Config NaN) 0 ''r1'' Map.empty))) = Inr (Long 10 False)
   \<and> sum_list (map delta (fst (getReceiptValues ''r1'' ''s1''
          [(4, ''u2'', Long 15 True), (5, ''u3'', Long 20 True)]
          (snd (getReceiptValue 3 ''u1'' \<lparr>nonce = ''r1'', streamId = ''s1'', totalReceived = Long 10 True\<rparr>
             (snd (setReceiptTTL (Config NaN) 0 ''r1'' Map.empty))))))) = 10
   \<and> last (totals [(4, ''u2'', Long 15 True), (5, ''u3'', Long 20 True)]) = 20"
proof -
  let ?e0 = "\<lparr>val = Hash [''dummy'' \<mapsto> ''0''], expires = Some 300000\<rparr>"
  let ?e1 = "\<lparr>val = Hash [''dummy'' \<mapsto> ''0'', ''s1'' \<mapsto> ''10''], expires = Some 300000\<rparr>"
  have t10: "ll2string 10 = ''10''"
    by (simp add: ll2string_def dec.simps digit_char_def)
  have g: "getReceiptValue 3 ''u1'' \<lparr>nonce = ''r1'', streamId = ''s1'', totalReceived = Long 10 True\<rparr>
             [receipt_key ''r1'' \<mapsto> ?e0]
           = (Inr (Long 10 False), [receipt_key ''r1'' \<mapsto> ?e1])"
    using getReceiptValue_first
      [of "\<lparr>nonce = ''r1'', streamId = ''s1'', totalReceived = Long 10 True\<rparr>" 3
          "[receipt_key ''r1'' \<mapsto> ?e0]" ?e0 "[''dummy'' \<mapsto> ''0'']" "''u1''"]
    by (simp add: lookupKey_def long_value_def LLONG_MAX_def t10)
  have s: "sum_list (map delta (fst (getReceiptValues ''r1'' ''s1''
              [(4, ''u2'', Long 15 True), (5, ''u3'', Long 20 True)] [receipt_key ''r1'' \<mapsto> ?e1])))
           = last (10 # totals [(4, ''u2'', Long 15 True), (5, ''u3'', Long 20 True)]) - 10"
    using getReceiptValues_from_watermark
      [of "[receipt_key ''r1'' \<mapsto> ?e1]" "''r1''" ?e1 "[''dummy'' \<mapsto> ''0'', ''s1'' \<mapsto> ''10'']" "''s1''" 10
          "[(4, ''u2'', Long 15 True), (5, ''u3'', Long 20 True)]"]
    by (simp add: t10 live_at_def long_value_def LLONG_MAX_def totals_def)
  have r: "getReceiptValue 3 ''u1''
             \<lparr>nonce = ''r1'', streamId = ''s1'', totalReceived = Long 0x8000000000000000 True\<rparr> st
           = (Inl AmountOverflow, st)" for st
    by (rule getReceiptValue_rejects) (simp add: long_value_def LLONG_MAX_def)
  show ?thesis
    using s by (simp add: setReceiptTTL_default g r delta_def totals_def long_value_def)
qed

text \<open>
  C1, amended: on a live record whose stream has no watermark yet (or the watermark 0),
  for a sequence of calls whose totals are non-decreasing and lie between 0 and
  \<open>2^63 - 1\<close>, every call returns, and the returned deltas add up to the last total
  (to 0 when there is no call). A call with a total above \<open>2^63 - 1\<close> throws
  AmountOverflow and leaves the store as it was.
\<close>

theorem deltas_sum_to_final_total:
  assumes "st (receipt_key n) = Some e" and "val e = Hash h"
    and "h sid = None \<or> h sid = Some ''0''"
    and "sorted (totals calls)"
    and "\<forall>(now, uuid, a) \<in> set calls. live_at e now \<and> 0 \<le> long_value a \<and> long_value a \<le> LLONG_MAX"
  shows "sum_list (map delta (fst (getReceiptValues n sid calls st))) = last (0 # totals calls)
         \<and> (\<forall>res \<in> set (fst (getReceiptValues n sid calls st)). \<not> isl res)
         \<and> (\<forall>now uuid r st'. LLONG_MAX < long_value (totalReceived r)
               \<longrightarrow> getReceiptValue now uuid r st' = (Inl AmountOverflow, st'))"
proof -
  have main: "sum_list (map delta (fst (getReceiptValues n sid calls st))) = last (0 # totals calls)
         \<and> (\<forall>res \<in> set (fst (getReceiptValues n sid calls st)). \<not> isl res)"
  proof (cases "h sid")
    case (Some s)
    with assms(3) have h0: "h sid = Some (ll2string 0)" by (simp add: ll2string_0)
    have "sum_list (map delta (fst (getReceiptValues n sid calls st))) = last (0 # totals calls) - 0
           \<and> (\<forall>res \<in> set (fst (getReceiptValues n sid calls st)). \<not> isl res)"
      by (rule getReceiptValues_from_watermark [of st n e h sid 0 calls])
         (use assms(1,2,4,5) h0 in auto)
    then show ?thesis by simp
  next
    case None
    show ?thesis
    proof (cases calls)
      case Nil
      then show ?thesis by (simp add: totals_def)
    next
      case (Cons c cs)
      obtain now uuid a where c: "c = (now, uuid, a)" by (cases c)
      let ?r = "\<lparr>nonce = n, streamId = sid, totalReceived = a\<rparr>"
      let ?v = "long_value a"
      let ?e' = "e\<lparr>val := Hash (h(sid \<mapsto> ll2string ?v))\<rparr>"
      let ?st' = "st(receipt_key n \<mapsto> ?e')"
      from assms(5) Cons c have a: "live_at e now" "0 \<le> ?v" "?v \<le> LLONG_MAX" by simp_all
      have lk: "lookupKey now st (receipt_key (nonce ?r)) = Some e"
        using assms(1) a(1) by (simp add: lookupKey_live)
      have step: "getReceiptValue now uuid ?r st = (Inr (Long (word_of_int ?v) False), ?st')"
        using getReceiptValue_first [of ?r now st e h uuid] a lk assms(2) None by simp
      have d: "delta (Inr (Long (word_of_int ?v) False)) = ?v"
        using a by (intro delta_of_int) (simp_all add: LLONG_MIN_def)
      have rest: "\<forall>(now, uuid, b) \<in> set cs. live_at ?e' now \<and> ?v \<le> long_value b \<and> long_value b \<le> LLONG_MAX"
        using assms(4,5) Cons c by (auto simp: totals_def live_at_def)
      have sorted': "sorted (totals cs)"
        using assms(4) Cons by (simp add: totals_def)
      have tail: "sum_list (map delta (fst (getReceiptValues n sid cs ?st'))) = last (?v # totals cs) - ?v
                \<and> (\<forall>res \<in> set (fst (getReceiptValues n sid cs ?st')). \<not> isl res)"
        by (rule getReceiptValues_from_watermark [of ?st' n ?e' "h(sid \<mapsto> ll2string ?v)" sid ?v])
           (use a rest sorted' in \<open>simp_all add: fun_eq_iff\<close>)
      obtain rs st2 where g: "getReceiptValues n sid cs ?st' = (rs, st2)"
        by (cases "getReceiptValues n sid cs ?st'")
      from tail g have "sum_list (map delta rs) = last (?v # totals cs) - ?v" "\<forall>res \<in> set rs. \<not> isl res"
        by simp_all
      then show ?thesis
        using d by (simp add: Cons c step g totals_def)
    qed
  qed
  then show ?thesis
    by (simp add: getReceiptValue_rejects)
qed

theorem deltas_sum_to_final_total_witness:
  "sum_list (map delta (fst (getReceiptValues ''r1'' ''s1''
       [(1, ''u1'', Long 10 True), (2, ''u2'', Long 15 True), (3, ''u3'', Long 15 True)]
       [receipt_key ''r1'' \<mapsto> \<lparr>val = Hash [''dummy'' \<mapsto> ''0''], expires = Some 300000\<rparr>]))) = 15
   \<and> getReceiptValue 4 ''u4''
        \<lparr>nonce = ''r1'', streamId = ''s1'', totalReceived = Long 0x8000000000000000 True\<rparr> Map.empty
      = (Inl AmountOverflow, Map.empty)"
proof -
  have "LLONG_MAX < long_value (totalReceived
          \<lparr>nonce = ''r1'', streamId = ''s1'', totalReceived = Long 0x8000000000000000 True\<rparr>)"
    by (simp add: long_value_def LLONG_MAX_def)
  then show ?thesis
    using deltas_sum_to_final_total
      [of "[receipt_key ''r1'' \<mapsto> \<lparr>val = Hash [''dummy'' \<mapsto> ''0''], expires = Some 300000\<rparr>]"
          "''r1''" "\<lparr>val = Hash [''dummy'' \<mapsto> ''0''], expires = Some 300000\<rparr>"
          "[''dummy'' \<mapsto> ''0'']" "''s1''"
          "[(1, ''u1'', Long 10 True), (2, ''u2'', Long 15 True), (3, ''u3'', Long 15 True)]"]
    by (simp add: totals_def long_value_def live_at_def LLONG_MAX_def)
qed

text \<open>
  C2: a call whose cumulative total is below the watermark stored for its stream
  returns 0, and the receipt record, the watermark in it, is left as it was.
\<close>

theorem stale_total_returns_zero:
  assumes "lookupKey now st (receipt_key (nonce r)) = Some e" and "val e = Hash h"
    and "h (streamId r) = Some (ll2string w)" and "w \<le> LLONG_MAX"
    and "0 \<le> long_value (totalReceived r)" and "long_value (totalReceived r) < w"
  shows "fst (getReceiptValue now uuid r st) = Inr (Long 0 False)
         \<and> snd (getReceiptValue now uuid r st) (receipt_key (nonce r)) = st (receipt_key (nonce r))"
proof -
  have "long_value (totalReceived r) \<le> LLONG_MAX" "0 \<le> w"
    using assms by simp_all
  from getReceiptValue_next [OF assms(5) this(1) assms(1,2,3) this(2) assms(4)] assms(6)
  show ?thesis by simp
qed

theorem stale_total_returns_zero_witness:
  "fst (getReceiptValue 7 ''u3'' \<lparr>nonce = ''r1'', streamId = ''s1'', totalReceived = Long 5 True\<rparr>
          [receipt_key ''r1'' \<mapsto> \<lparr>val = Hash [''s1'' \<mapsto> ''15''], expires = Some 300000\<rparr>])
     = Inr (Long 0 False)
   \<and> snd (getReceiptValue 7 ''u3'' \<lparr>nonce = ''r1'', streamId = ''s1'', totalReceived = Long 5 True\<rparr>
          [receipt_key ''r1'' \<mapsto> \<lparr>val = Hash [''s1'' \<mapsto> ''15''], expires = Some 300000\<rparr>])
       (receipt_key ''r1'')
     = Some \<lparr>val = Hash [''s1'' \<mapsto> ''15''], expires = Some 300000\<rparr>"
  using stale_total_returns_zero
    [of 7 "[receipt_key ''r1'' \<mapsto> \<lparr>val = Hash [''s1'' \<mapsto> ''15''], expires = Some 300000\<rparr>]"
        "\<lparr>nonce = ''r1'', streamId = ''s1'', totalReceived = Long 5 True\<rparr>"
        "\<lparr>val = Hash [''s1'' \<mapsto> ''15''], expires = Some 300000\<rparr>"
        "[''s1'' \<mapsto> ''15'']" 15 "''u3''"]
  by (simp add: lookupKey_def long_value_def LLONG_MAX_def ll2string_def dec.simps digit_char_def)

text \<open>
  C3: when no record exists for the nonce at the time of the call (never registered, or
  expired), a call with a total of at most \<open>2^63 - 1\<close> returns the unsigned zero and
  leaves the store as it was.
\<close>

theorem unknown_receipt_returns_zero:
  assumes "lookupKey now st (receipt_key (nonce r)) = None"
    and "long_value (totalReceived r) \<le> LLONG_MAX"
  shows "getReceiptValue now uuid r st = (Inr UZERO, st)"
  using assms by (simp add: getReceiptValue_def compare_MAX_iff EXISTS_def)

theorem unknown_receipt_returns_zero_witness:
  "getReceiptValue 5 ''u1'' \<lparr>nonce = ''r1'', streamId = ''s1'', totalReceived = Long 10 True\<rparr> Map.empty
     = (Inr UZERO, Map.empty)
   \<and> getReceiptValue 300000 ''u1'' \<lparr>nonce = ''r1'', streamId = ''s1'', totalReceived = Long 10 True\<rparr>
       [receipt_key ''r1'' \<mapsto> \<lparr>val = Hash [''s1'' \<mapsto> ''5''], expires = Some 300000\<rparr>]
     = (Inr UZERO, [receipt_key ''r1'' \<mapsto> \<lparr>val = Hash [''s1'' \<mapsto> ''5''], expires = Some 300000\<rparr>])"
  using unknown_receipt_returns_zero
      [of 5 Map.empty "\<lparr>nonce = ''r1'', streamId = ''s1'', totalReceived = Long 10 True\<rparr>" "''u1''"]
    unknown_receipt_returns_zero
      [of 300000 "[receipt_key ''r1'' \<mapsto> \<lparr>val = Hash [''s1'' \<mapsto> ''5''], expires = Some 300000\<rparr>]"
          "\<lparr>nonce = ''r1'', streamId = ''s1'', totalReceived = Long 10 True\<rparr>" "''u1''"]
  by (simp add: lookupKey_def long_value_def LLONG_MAX_def)

text \<open>
  C10, as stated: a call on a record whose stream has a watermark leaves a scratch key
  holding the cumulative total. The script sets the scratch key to the total and then
  decrements it by the watermark, so after the call with total 15 on the watermark 10 the
  scratch key holds 5.
\<close>

theorem scratch_key_holds_difference_counterexample:
  "snd (getReceiptValue 1 ''u1'' \<lparr>nonce = ''r1'', streamId = ''s1'', totalReceived = Long 15 True\<rparr>
          [receipt_key ''r1'' \<mapsto> \<lparr>val = Hash [''s1'' \<mapsto> ''10''], expires = Some 300000\<rparr>])
       (temp_key ''u1'')
     = Some \<lparr>val = Str ''5'', expires = Some 1001\<rparr>
   \<and> toString (Long 15 True) = ''15''"
  using getReceiptValue_next
    [of "\<lparr>nonce = ''r1'', streamId = ''s1'', totalReceived = Long 15 True\<rparr>" 1
        "[receipt_key ''r1'' \<mapsto> \<lparr>val = Hash [''s1'' \<mapsto> ''10''], expires = Some 300000\<rparr>]"
        "\<lparr>val = Hash [''s1'' \<mapsto> ''10''], expires = Some 300000\<rparr>"
        "[''s1'' \<mapsto> ''10'']" 10 "''u1''"]
  by (simp add: lookupKey_def long_value_def LLONG_MAX_def ll2string_def dec.simps digit_char_def toString_def)

text \<open>
  C10, amended: a call with a total between 0 and \<open>2^63 - 1\<close> on a live record whose
  stream has a watermark \<open>w\<close> leaves the scratch key \<open>temp_key uuid\<close> holding the total
  minus \<open>w\<close>, expiring one second after the call; every key other than the scratch key
  and the receipt key is as before; the receipt record keeps its expiry and every field
  other than the one of the stream.
\<close>

theorem scratch_key_and_frame:
  assumes "0 \<le> long_value (totalReceived r)" and "long_value (totalReceived r) \<le> LLONG_MAX"
    and "lookupKey now st (receipt_key (nonce r)) = Some e" and "val e = Hash h"
    and "h (streamId r) = Some (ll2string w)" and "0 \<le> w" and "w \<le> LLONG_MAX"
  shows "snd (getReceiptValue now uuid r st) (temp_key uuid)
           = Some \<lparr>val = Str (ll2string (long_value (totalReceived r) - w)), expires = Some (now + 1000)\<rparr>
         \<and> (\<forall>k. k \<noteq> temp_key uuid \<and> k \<noteq> receipt_key (nonce r)
                \<longrightarrow> snd (getReceiptValue now uuid r st) k = st k)
         \<and> (\<exists>h'. snd (getReceiptValue now uuid r st) (receipt_key (nonce r)) = Some (e\<lparr>val := Hash h'\<rparr>)
                \<and> (\<forall>f. f \<noteq> streamId r \<longrightarrow> h' f = h f))"
proof -
  have s: "st (receipt_key (nonce r)) = Some e"
    using assms(3) by (simp add: lookupKey_def split: option.splits if_splits)
  have e: "e\<lparr>val := Hash h\<rparr> = e"
    using assms(4) by simp
  show ?thesis
  proof (cases "long_value (totalReceived r) < w")
    case True
    have "\<exists>h'. st (receipt_key (nonce r)) = Some (e\<lparr>val := Hash h'\<rparr>) \<and> (\<forall>f. f \<noteq> streamId r \<longrightarrow> h' f = h f)"
      using s e by (intro exI [of _ h]) simp
    then show ?thesis
      using True getReceiptValue_next [OF assms, of uuid] by simp
  next
    case False
    then show ?thesis
      using getReceiptValue_next [OF assms, of uuid] by auto
  qed
qed

theorem scratch_key_and_frame_witness:
  "snd (getReceiptValue 1 ''u1'' \<lparr>nonce = ''r1'', streamId = ''s1'', totalReceived = Long 15 True\<rparr>
          [receipt_key ''r1'' \<mapsto> \<lparr>val = Hash [''s1'' \<mapsto> ''10''], expires = Some 300000\<rparr>])
       (temp_key ''u1'')
     = Some \<lparr>val = Str (ll2string 5), expires = Some 1001\<rparr>"
  using scratch_key_and_frame
    [of "\<lparr>nonce = ''r1'', streamId = ''s1'', totalReceived = Long 15 True\<rparr>" 1
        "[receipt_key ''r1'' \<mapsto> \<lparr>val = Hash [''s1'' \<mapsto> ''10''], expires = Some 300000\<rparr>]"
        "\<lparr>val = Hash [''s1'' \<mapsto> ''10''], expires = Some 300000\<rparr>"
        "[''s1'' \<mapsto> ''10'']" 10 "''u1''"]
  by (simp add: lookupKey_def long_value_def LLONG_MAX_def ll2string_def dec.simps digit_char_def)

section \<open>Registration\<close>




text \<open>
  C9, as stated: registering again resets the expiry of an existing record and keeps
  every watermark in it. The timeout comes from the configuration, and
  \<^verbatim>\<open>Number(env.RECEIPT_TTL) || 300\<close> lets through a number that is not an integer and
  a negative one. With 1.5 the server refuses the timeout: the first registration leaves
  a record without expiry, a call stores the watermark 10 in it, and registering again
  throws and sets no expiry. With \<open>-1\<close>, on a record registered while the timeout was
  300, EXPIRE deletes the key, and the watermark 10 of stream \<open>s1\<close> is gone.
\<close>

theorem registration_without_expiry_reset_counterexample:
  "setReceiptTTL (Config (Finite (3 / 2))) 0 ''r1'' Map.empty
     = (Inl (ReplyError NotAnInteger),
        [receipt_key ''r1'' \<mapsto> \<lparr>val = Hash [''dummy'' \<mapsto> ''0''], expires = None\<rparr>])
   \<and> getReceiptValue 3 ''u1'' \<lparr>nonce = ''r1'', streamId = ''s1'', totalReceived = Long 10 True\<rparr>
         [receipt_key ''r1'' \<mapsto> \<lparr>val = Hash [''dummy'' \<mapsto> ''0''], expires = None\<rparr>]
     = (Inr (Long 10 False),
        [receipt_key ''r1'' \<mapsto> \<lparr>val = Hash [''dummy'' \<mapsto> ''0'', ''s1'' \<mapsto> ''10''], expires = None\<rparr>])
   \<and> fst (setReceiptTTL (Config (Finite (3 / 2))) 4 ''r1''
         [receipt_key ''r1'' \<mapsto> \<lparr>val = Hash [''dummy'' \<mapsto> ''0'', ''s1'' \<mapsto> ''10''], expires = None\<rparr>])
     = Inl (ReplyError NotAnInteger)
   \<and> map_option expires
         (snd (setReceiptTTL (Config (Finite (3 / 2))) 4 ''r1''
            [receipt_key ''r1'' \<mapsto> \<lparr>val = Hash [''dummy'' \<mapsto> ''0'', ''s1'' \<mapsto> ''10''], expires = None\<rparr>])
          (receipt_key ''r1''))
     = Some None
   \<and> fst (HGET 5 (receipt_key ''r1'') ''s1''
          [receipt_key ''r1'' \<mapsto> \<lparr>val = Hash [''dummy'' \<mapsto> ''0'', ''s1'' \<mapsto> ''10''],
                                  expires = Some 300000\<rparr>]) = Inr (Some ''10'')
   \<and> fst (HGET 5 (receipt_key ''r1'') ''s1''
          (snd (setReceiptTTL (Config (Finite (- 1))) 5 ''r1''
             [receipt_key ''r1'' \<mapsto> \<lparr>val = Hash [''dummy'' \<mapsto> ''0'', ''s1'' \<mapsto> ''10''],
                                     expires = Some 300000\<rparr>]))) = Inr None"
proof -
  have g: "getReceiptValue 3 ''u1'' \<lparr>nonce = ''r1'', streamId = ''s1'', totalReceived = Long 10 True\<rparr>
         [receipt_key ''r1'' \<mapsto> \<lparr>val = Hash [''dummy'' \<mapsto> ''0''], expires = None\<rparr>]
     = (Inr (Long 10 False),
        [receipt_key ''r1'' \<mapsto> \<lparr>val = Hash [''dummy'' \<mapsto> ''0'', ''s1'' \<mapsto> ''10''], expires = None\<rparr>])"
    using getReceiptValue_first
      [of "\<lparr>nonce = ''r1'', streamId = ''s1'', totalReceived = Long 10 True\<rparr>" 3
          "[receipt_key ''r1'' \<mapsto> \<lparr>val = Hash [''dummy'' \<mapsto> ''0''], expires = None\<rparr>]"
          "\<lparr>val = Hash [''dummy'' \<mapsto> ''0''], expires = None\<rparr>" "[''dummy'' \<mapsto> ''0'']" "''u1''"]
    by (simp add: lookupKey_def long_value_def LLONG_MAX_def ll2string_def dec.simps digit_char_def)
  show ?thesis
    by (simp add: g)
       (simp add: setReceiptTTL_def HSET_def HGET_def expire_def EXPIRE_def lookupKey_def Config_def
          truthy_def integer_text_fraction integer_text_minus_one string2ll_minus_one LLONG_MAX_def)
qed

text \<open>
  C9, amended: when the configured \<open>receiptTTLSeconds\<close> is a positive integer \<open>s\<close> and
  the time of the call in milliseconds plus \<open>1000 s\<close> is at most \<open>2^63 - 1\<close>,
  \<open>setReceiptTTL\<close> on a live receipt record sets the field \<open>dummy\<close> to 0 and the expiry
  to \<open>s\<close> seconds from now; every other field of the record and every other key of the
  store keeps its value.
\<close>

theorem setReceiptTTL_keeps_watermarks:
  assumes "receiptTTLSeconds cfg = Finite (of_int s)" and "0 < s"
    and "int now + 1000 * s \<le> LLONG_MAX"
    and "lookupKey now st (receipt_key n) = Some e" and "val e = Hash h"
  shows "\<exists>h'. snd (setReceiptTTL cfg now n st) (receipt_key n)
                = Some \<lparr>val = Hash h', expires = Some (now + 1000 * nat s)\<rparr>
              \<and> h' ''dummy'' = Some ''0''
              \<and> (\<forall>f. f \<noteq> ''dummy'' \<longrightarrow> h' f = h f)
              \<and> (\<forall>k. k \<noteq> receipt_key n \<longrightarrow> snd (setReceiptTTL cfg now n st) k = st k)"
  using setReceiptTTL_hash [OF assms]
  by (intro exI [of _ "h(''dummy'' \<mapsto> ''0'')"]) simp

theorem setReceiptTTL_keeps_watermarks_witness:
  "\<exists>h'. snd (setReceiptTTL (Config NaN) 5 ''r1''
              [receipt_key ''r1'' \<mapsto> \<lparr>val = Hash [''dummy'' \<mapsto> ''0'', ''s1'' \<mapsto> ''10''],
                                      expires = Some 300000\<rparr>]) (receipt_key ''r1'')
           = Some \<lparr>val = Hash h', expires = Some 300005\<rparr>
         \<and> h' ''s1'' = Some ''10''"
proof -
  have "\<exists>h'. snd (setReceiptTTL (Config NaN) 5 ''r1''
              [receipt_key ''r1'' \<mapsto> \<lparr>val = Hash [''dummy'' \<mapsto> ''0'', ''s1'' \<mapsto> ''10''],
                                      expires = Some 300000\<rparr>]) (receipt_key ''r1'')
           = Some \<lparr>val = Hash h', expires = Some (5 + 1000 * nat 300)\<rparr>
         \<and> h' ''dummy'' = Some ''0''
         \<and> (\<forall>f. f \<noteq> ''dummy'' \<longrightarrow> h' f = [''dummy'' \<mapsto> ''0'', ''s1'' \<mapsto> ''10''] f)
         \<and> (\<forall>k. k \<noteq> receipt_key ''r1'' \<longrightarrow>
               snd (setReceiptTTL (Config NaN) 5 ''r1''
                 [receipt_key ''r1'' \<mapsto> \<lparr>val = Hash [''dummy'' \<mapsto> ''0'', ''s1'' \<mapsto> ''10''],
                                         expires = Some 300000\<rparr>]) k
               = [receipt_key ''r1'' \<mapsto> \<lparr>val = Hash [''dummy'' \<mapsto> ''0'', ''s1'' \<mapsto> ''10''],
                                         expires = Some 300000\<rparr>] k)"
    by (rule setReceiptTTL_keeps_watermarks
          [where e = "\<lparr>val = Hash [''dummy'' \<mapsto> ''0'', ''s1'' \<mapsto> ''10''], expires = Some 300000\<rparr>"
             and h = "[''dummy'' \<mapsto> ''0'', ''s1'' \<mapsto> ''10'']"])
       (simp_all add: Config_def truthy_def lookupKey_def LLONG_MAX_def)
  then show ?thesis
    by auto
qed


section \<open>The balance ledger\<close>

text \<open>
  C4, as stated: \<open>creditBalance\<close> fails with BalanceOverflow only when the sum would
  exceed \<open>2^63 - 1\<close>, and no other failure of the store-side step is reported as
  BalanceOverflow. The \<^verbatim>\<open>catch\<close> around the script call throws that error for every
  failure: on a balance key that holds the text \<open>abc\<close> INCRBY replies that the value is
  not an integer, and \<open>creditBalance\<close> reports BalanceOverflow although no number is
  stored.
\<close>

theorem any_script_error_is_BalanceOverflow_counterexample:
  "creditBalance 0 ''id'' (Long 1 True) [balance_key ''id'' \<mapsto> \<lparr>val = Str ''abc'', expires = None\<rparr>]
     = (Inl BalanceOverflow, [balance_key ''id'' \<mapsto> \<lparr>val = Str ''abc'', expires = None\<rparr>])
   \<and> stored_balance 0 [balance_key ''id'' \<mapsto> \<lparr>val = Str ''abc'', expires = None\<rparr>] ''id'' = None
   \<and> fst (INCRBY 0 (balance_key ''id'') ''1''
            [balance_key ''id'' \<mapsto> \<lparr>val = Str ''abc'', expires = None\<rparr>]) = Inl NotAnInteger"
proof -
  have n: "string2ll ''abc'' = None"
    by (simp add: string2ll_def dec_val_def digit_val_def ll2string_def dec.simps digit_char_def)
  have one: "string2ll ''1'' = Some 1"
    by (simp add: string2ll_def dec_val_def digit_val_def ll2string_def dec.simps digit_char_def
        LLONG_MAX_def LLONG_MIN_def)
  have s: "stored_balance 0 [balance_key ''id'' \<mapsto> \<lparr>val = Str ''abc'', expires = None\<rparr>] ''id'' = None"
    by (simp add: stored_balance_def lookupKey_def n)
  have "creditBalance 0 ''id'' (Long 1 True) [balance_key ''id'' \<mapsto> \<lparr>val = Str ''abc'', expires = None\<rparr>]
     = (Inl BalanceOverflow, [balance_key ''id'' \<mapsto> \<lparr>val = Str ''abc'', expires = None\<rparr>])"
    by (rule creditBalance_failure) (simp_all add: s long_value_def LLONG_MAX_def)
  then show ?thesis
    using s by (simp add: INCRBY_def one incrDecr_def lookupKey_def n)
qed

text \<open>
  C4, amended: for an amount between 0 and \<open>2^63 - 1\<close>, \<open>creditBalance\<close> fails with
  BalanceOverflow exactly when the script fails: when the balance key holds an integer
  \<open>b\<close> (0 when absent), if and only if \<open>b\<close> plus the amount exceeds \<open>2^63 - 1\<close>, and
  also whenever the key holds a hash or text that is not an integer. On that failure the
  store is as before the call. Otherwise the call returns \<open>b\<close> plus the amount and
  stores it.
\<close>

theorem creditBalance_overflow_iff_script_fails:
  assumes "0 \<le> long_value a" and "long_value a \<le> LLONG_MAX"
  shows "(fst (creditBalance now ident a st) = Inl BalanceOverflow
            \<longleftrightarrow> (case stored_balance now st ident of
                   None \<Rightarrow> True
                 | Some b \<Rightarrow> LLONG_MAX < b + long_value a))
         \<and> (fst (creditBalance now ident a st) = Inl BalanceOverflow
              \<longrightarrow> snd (creditBalance now ident a st) = st)
         \<and> (\<forall>b. stored_balance now st ident = Some b \<and> b + long_value a \<le> LLONG_MAX
              \<longrightarrow> fst (creditBalance now ident a st) = Inr (Long (word_of_int (b + long_value a)) False)
                  \<and> stored_balance now (snd (creditBalance now ident a st)) ident
                      = Some (b + long_value a))"
proof (cases "case stored_balance now st ident of None \<Rightarrow> True | Some b \<Rightarrow> LLONG_MAX < b + long_value a")
  case True
  from creditBalance_failure [OF assms True] True show ?thesis by auto
next
  case False
  then obtain b where b: "stored_balance now st ident = Some b" "b + long_value a \<le> LLONG_MAX"
    by (cases "stored_balance now st ident") auto
  from creditBalance_success [OF assms b] stored_balance_after_credit [OF assms b] b
  show ?thesis by simp
qed


theorem creditBalance_overflow_iff_script_fails_witness:
  "creditBalance 0 ''id'' (Long 1 True)
     [balance_key ''id'' \<mapsto> \<lparr>val = Str ''9223372036854775807'', expires = None\<rparr>]
   = (Inl BalanceOverflow,
      [balance_key ''id'' \<mapsto> \<lparr>val = Str ''9223372036854775807'', expires = None\<rparr>])"
proof -
  have s: "stored_balance 0 [balance_key ''id'' \<mapsto> \<lparr>val = Str ''9223372036854775807'', expires = None\<rparr>] ''id''
             = Some 9223372036854775807"
    by (simp add: stored_balance_def lookupKey_def string2ll_def dec_val_def digit_val_def
        ll2string_def dec.simps digit_char_def LLONG_MAX_def LLONG_MIN_def)
  show ?thesis
    using creditBalance_overflow_iff_script_fails
      [of "Long 1 True" 0 "''id''"
          "[balance_key ''id'' \<mapsto> \<lparr>val = Str ''9223372036854775807'', expires = None\<rparr>]"]
    by (simp add: s long_value_def LLONG_MAX_def prod_eq_iff)
qed

text \<open>
  C5: for an amount between 0 and \<open>2^63 - 1\<close> and a balance that is absent or a number
  between 0 and \<open>2^63 - 1\<close>: when no record exists, \<open>spendBalance\<close> fails with
  BalanceNotFound and the store is as before, so no record is created; when the balance
  minus the amount is negative, it fails with InsufficientBalance and the store is as
  before; otherwise it stores the balance minus the amount and returns it.
\<close>

theorem spendBalance_cases:
  assumes "0 \<le> long_value a" and "long_value a \<le> LLONG_MAX" and "balance_ok now st ident"
  shows "(lookupKey now st (balance_key ident) = None
            \<longrightarrow> spendBalance now ident a st = (Inl BalanceNotFound, st))
         \<and> (\<forall>e b. lookupKey now st (balance_key ident) = Some e
                  \<and> stored_balance now st ident = Some b \<and> b - long_value a < 0
              \<longrightarrow> spendBalance now ident a st = (Inl InsufficientBalance, st))
         \<and> (\<forall>e b. lookupKey now st (balance_key ident) = Some e
                  \<and> stored_balance now st ident = Some b \<and> 0 \<le> b - long_value a
              \<longrightarrow> spendBalance now ident a st
                    = (Inr (Long (word_of_int (b - long_value a)) False),
                       st(balance_key ident \<mapsto> e\<lparr>val := Str (ll2string (b - long_value a))\<rparr>))
                  \<and> stored_balance now (snd (spendBalance now ident a st)) ident
                      = Some (b - long_value a))"
proof (intro conjI allI impI)
  assume "lookupKey now st (balance_key ident) = None"
  then show "spendBalance now ident a st = (Inl BalanceNotFound, st)"
    using assms(1,2) by (rule spendBalance_absent [rotated 2])
next
  fix e b
  assume h: "lookupKey now st (balance_key ident) = Some e
               \<and> stored_balance now st ident = Some b \<and> b - long_value a < 0"
  then have "0 \<le> b" using assms(3) by (simp add: balance_ok_def)
  with h show "spendBalance now ident a st = (Inl InsufficientBalance, st)"
    using spendBalance_present [OF assms(1,2), of now st ident e b] by simp
next
  fix e b
  assume h: "lookupKey now st (balance_key ident) = Some e
               \<and> stored_balance now st ident = Some b \<and> 0 \<le> b - long_value a"
  then have "0 \<le> b" using assms(3) by (simp add: balance_ok_def)
  with h show "spendBalance now ident a st
                 = (Inr (Long (word_of_int (b - long_value a)) False),
                    st(balance_key ident \<mapsto> e\<lparr>val := Str (ll2string (b - long_value a))\<rparr>))"
    using spendBalance_present [OF assms(1,2), of now st ident e b] by simp
  from h show "stored_balance now (snd (spendBalance now ident a st)) ident = Some (b - long_value a)"
    using stored_balance_after_spend [OF assms(1,2), of now st ident e b] by simp
qed


theorem spendBalance_cases_witness:
  "spendBalance 0 ''acct2'' (Long 20 True)
     [balance_key ''acct1'' \<mapsto> \<lparr>val = Str ''15'', expires = None\<rparr>]
     = (Inl BalanceNotFound, [balance_key ''acct1'' \<mapsto> \<lparr>val = Str ''15'', expires = None\<rparr>])
   \<and> spendBalance 0 ''acct1'' (Long 20 True)
     [balance_key ''acct1'' \<mapsto> \<lparr>val = Str ''15'', expires = None\<rparr>]
     = (Inl InsufficientBalance, [balance_key ''acct1'' \<mapsto> \<lparr>val = Str ''15'', expires = None\<rparr>])
   \<and> fst (spendBalance 0 ''acct1'' (Long 15 True)
     [balance_key ''acct1'' \<mapsto> \<lparr>val = Str ''15'', expires = None\<rparr>])
     = Inr (Long 0 False)"
proof -
  let ?st = "[balance_key ''acct1'' \<mapsto> \<lparr>val = Str ''15'', expires = None\<rparr>]"
  have k: "balance_key ''acct2'' \<noteq> balance_key ''acct1''"
    by (simp add: balance_key_def)
  have s1: "stored_balance 0 ?st ''acct1'' = Some 15"
    by (simp add: stored_balance_def lookupKey_def string2ll_15)
  have s2: "stored_balance 0 ?st ''acct2'' = Some 0" "lookupKey 0 ?st (balance_key ''acct2'') = None"
    using k by (simp_all add: stored_balance_def lookupKey_def)
  have l1: "lookupKey 0 ?st (balance_key ''acct1'') = Some \<lparr>val = Str ''15'', expires = None\<rparr>"
    by (simp add: lookupKey_def)
  have ok: "balance_ok 0 ?st ''acct1''" "balance_ok 0 ?st ''acct2''"
    by (simp_all add: balance_ok_def s1 s2 LLONG_MAX_def)
  have v: "long_value (Long 20 True) = 20" "long_value (Long 15 True) = 15"
    by (simp_all add: long_value_def)
  show ?thesis
    using spendBalance_cases [of "Long 20 True" 0 ?st "''acct2''"]
      spendBalance_cases [of "Long 20 True" 0 ?st "''acct1''"]
      spendBalance_cases [of "Long 15 True" 0 ?st "''acct1''"]
    by (simp add: v ok s1 s2 l1 LLONG_MAX_def)
qed

text \<open>
  C6: starting from a balance that is absent or a number between 0 and \<open>2^63 - 1\<close>, on a
  key without expiry, after any sequence of \<open>creditBalance\<close> and \<open>spendBalance\<close> calls
  for one identifier the stored number is the initial one (0 when absent) plus the amounts
  of the credits that succeeded minus the amounts of the spends that succeeded, and after
  every call the stored number is between 0 and \<open>2^63 - 1\<close>.
\<close>

theorem ledger_accounts_for_every_operation:
  assumes "balance_ok now0 st ident" and "persistent st (balance_key ident)"
  shows "\<exists>b0. stored_balance now0 st ident = Some b0
           \<and> stored_balance t (final_store st (run_ops ident ops st)) ident
               = Some (b0 + net_effect ops (run_ops ident ops st))
           \<and> (\<forall>(res, st') \<in> set (run_ops ident ops st).
                 \<exists>b. stored_balance t st' ident = Some b \<and> 0 \<le> b \<and> b \<le> LLONG_MAX)"
proof -
  from assms(1) obtain b0 where b0: "stored_balance now0 st ident = Some b0" "0 \<le> b0"
    by (auto simp: balance_ok_def split: option.splits)
  from run_ops_invariant [OF b0 assms(2), of t ops] b0 show ?thesis
    by (auto simp: balance_ok_def split: option.splits)
qed



theorem ledger_accounts_for_every_operation_witness:
  "\<exists>b0. stored_balance 0 Map.empty ''acct1'' = Some b0
     \<and> stored_balance 9
          (final_store Map.empty
             (run_ops ''acct1''
                [(1, Credit (Long 10 True)), (2, Credit (Long 5 True)),
                 (3, Spend (Long 20 True)), (4, Spend (Long 15 True))] Map.empty)) ''acct1''
         = Some (b0 + net_effect
                   [(1, Credit (Long 10 True)), (2, Credit (Long 5 True)),
                    (3, Spend (Long 20 True)), (4, Spend (Long 15 True))]
                   (run_ops ''acct1''
                      [(1, Credit (Long 10 True)), (2, Credit (Long 5 True)),
                       (3, Spend (Long 20 True)), (4, Spend (Long 15 True))] Map.empty))
     \<and> (\<forall>(res, st') \<in> set (run_ops ''acct1''
                [(1, Credit (Long 10 True)), (2, Credit (Long 5 True)),
                 (3, Spend (Long 20 True)), (4, Spend (Long 15 True))] Map.empty).
           \<exists>b. stored_balance 9 st' ''acct1'' = Some b \<and> 0 \<le> b \<and> b \<le> LLONG_MAX)"
  by (rule ledger_accounts_for_every_operation)
     (simp_all add: balance_ok_def stored_balance_def lookupKey_def persistent_def LLONG_MAX_def)


text \<open>The scenario of the specification: credit 10, credit 5, spend 20, spend 15.\<close>

lemma ledger_example:
  "map fst (run_ops ''acct1''
       [(1, Credit (Long 10 True)), (2, Credit (Long 5 True)),
        (3, Spend (Long 20 True)), (4, Spend (Long 15 True))] Map.empty)
     = [Inr (Long 10 False), Inr (Long 15 False), Inl InsufficientBalance, Inr (Long 0 False)]"
  by code_simp

section \<open>The proxy registry\<close>

text \<open>
  C8: for a pointer whose canonical form (\<open>https://\<close> in place of a leading \<open>$\<close>,
  otherwise the pointer itself) parses as a URL, \<open>createProxy\<close> returns the hash of the
  pointer as given and stores the URL's \<open>href\<close> under it; a second \<open>createProxy\<close> with
  the same pointer returns the same hash and leaves the same store; \<open>getPointer\<close> of the
  hash returns the \<open>href\<close>; and after \<open>deleteProxy\<close> of the hash, \<open>getPointer\<close> of it
  fails with NotFound. The \<open>href\<close> of a URL is not empty.
\<close>

theorem proxy_create_lookup_delete:
  assumes "URL_href (if take 1 pointer = ''$'' then ''https://'' @ drop 1 pointer else pointer) = Some href"
    and "href \<noteq> []"
  shows "fst (createProxy URL_href sha256_hex pointer st) = Inr (sha256_hex pointer)
         \<and> snd (createProxy URL_href sha256_hex pointer st) (sha256_hex pointer)
             = Some \<lparr>val = Str href, expires = None\<rparr>
         \<and> createProxy URL_href sha256_hex pointer (snd (createProxy URL_href sha256_hex pointer st))
             = createProxy URL_href sha256_hex pointer st
         \<and> getPointer now (sha256_hex pointer) (snd (createProxy URL_href sha256_hex pointer st))
             = (Inr href, snd (createProxy URL_href sha256_hex pointer st))
         \<and> fst (deleteProxy (sha256_hex pointer) (snd (createProxy URL_href sha256_hex pointer st)))
             = Inr ()
         \<and> fst (getPointer now' (sha256_hex pointer)
                  (snd (deleteProxy (sha256_hex pointer)
                     (snd (createProxy URL_href sha256_hex pointer st)))))
             = Inl NotFound"
proof -
  have c: "createProxy URL_href sha256_hex pointer st' =
             (Inr (sha256_hex pointer), st'(sha256_hex pointer \<mapsto> \<lparr>val = Str href, expires = None\<rparr>))"
    for st'
    using assms(1) by (rule createProxy_ok [of URL_href pointer href sha256_hex st'])
  show ?thesis
    using assms(2)
    by (simp add: c getPointer_Str getPointer_after_delete) (simp add: deleteProxy_def DEL_def)
qed


theorem proxy_create_lookup_delete_witness:
  "fst (createProxy (\<lambda>s. if take 8 s = ''https://'' then Some s else None) (\<lambda>s. ''h'' @ s)
          ''$wallet.example/alice'' Map.empty) = Inr ''h$wallet.example/alice''
   \<and> getPointer 3 ''h$wallet.example/alice''
        (snd (createProxy (\<lambda>s. if take 8 s = ''https://'' then Some s else None) (\<lambda>s. ''h'' @ s)
               ''$wallet.example/alice'' Map.empty))
       = (Inr ''https://wallet.example/alice'',
          snd (createProxy (\<lambda>s. if take 8 s = ''https://'' then Some s else None) (\<lambda>s. ''h'' @ s)
               ''$wallet.example/alice'' Map.empty))
   \<and> fst (getPointer 4 ''h$wallet.example/alice''
            (snd (deleteProxy ''h$wallet.example/alice''
               (snd (createProxy (\<lambda>s. if take 8 s = ''https://'' then Some s else None) (\<lambda>s. ''h'' @ s)
                       ''$wallet.example/alice'' Map.empty)))))
       = Inl NotFound"
  using proxy_create_lookup_delete
    [of "\<lambda>s. if take 8 s = ''https://'' then Some s else None" "''$wallet.example/alice''"
        "''https://wallet.example/alice''" "\<lambda>s. ''h'' @ s" Map.empty 3 4]
  by simp

end
